theory Spec2Isabelle
  imports Complex_Main "HOL-Library.Multiset"
begin

section \<open>JavaScript strings, numbers and JSON values\<close>

text \<open>
  A string is a list of code units; the model covers the code units below 256, read as
  Latin-1. In that range the white space of \<^verbatim>\<open>String.prototype.trim\<close>, of the
  regular expression class \<^verbatim>\<open>\s\<close> and of \<^verbatim>\<open>parseInt\<close> is TAB, LF, VT, FF, CR,
  SPACE and NBSP.
\<close>

definition isWhiteSpace :: "char \<Rightarrow> bool" where
  "isWhiteSpace c = (of_char c \<in> {9, 10, 11, 12, 13, 32, 160 :: nat})"

definition trim :: "string \<Rightarrow> string" where
  "trim s = rev (dropWhile isWhiteSpace (rev (dropWhile isWhiteSpace s)))"

text \<open>
  \<^verbatim>\<open>toLowerCase\<close> on Latin-1: A-Z, and the accented capitals 192-214 and 216-222, move
  up by 32; every other code unit below 256 is unchanged.
\<close>

definition lowerChar :: "char \<Rightarrow> char" where
  "lowerChar c =
     (let n = (of_char c :: nat)
      in if (65 \<le> n \<and> n \<le> 90) \<or> (192 \<le> n \<and> n \<le> 214) \<or> (216 \<le> n \<and> n \<le> 222)
         then char_of (n + 32) else c)"

definition toLowerCase :: "string \<Rightarrow> string" where
  "toLowerCase s = map lowerChar s"

text \<open>
  A JavaScript number as the code meets it: an integer-valued double, an infinity or
  \<^verbatim>\<open>NaN\<close>. In \<open>Num n\<close> the integer \<open>n\<close> is the value of a double.
\<close>

datatype number = NaN | Num int | Infinity | NegInfinity

text \<open>The number of binary digits of a natural number.\<close>

fun bitlen :: "nat \<Rightarrow> nat" where
  "bitlen n = (if n = 0 then 0 else Suc (bitlen (n div 2)))"

declare bitlen.simps [simp del]

text \<open>
  The double nearest to a natural number: up to \<open>2 ^ 53\<close> every integer is a double; above,
  the 53 leading binary digits are kept, rounding to the nearest such value with a tie
  going to the even one.
\<close>

definition round_nat :: "nat \<Rightarrow> nat" where
  "round_nat m =
     (if m < 2 ^ 53 then m
      else (let s = 2 ^ (bitlen m - 53); q = m div s; r = m mod s
            in if 2 * r < s \<or> (2 * r = s \<and> even q) then q * s else (q + 1) * s))"

text \<open>The double nearest to an integer; from \<open>2 ^ 1024\<close> on it is an infinity.\<close>

definition to_double :: "int \<Rightarrow> number" where
  "to_double n =
     (let m = round_nat (nat \<bar>n\<bar>)
      in if 2 ^ 1024 \<le> m then (if n < 0 then NegInfinity else Infinity)
         else Num (if n < 0 then - int m else int m))"

text \<open>The comparison \<^verbatim>\<open>x <= y\<close>, false when either side is \<^verbatim>\<open>NaN\<close>.\<close>

fun fle :: "number \<Rightarrow> number \<Rightarrow> bool" where
  "fle NaN _ = False"
| "fle _ NaN = False"
| "fle NegInfinity _ = True"
| "fle _ Infinity = True"
| "fle (Num a) (Num b) = (a \<le> b)"
| "fle _ _ = False"

text \<open>Subtraction and multiplication of doubles with integer values: the exact result, rounded.\<close>

fun fsub :: "number \<Rightarrow> number \<Rightarrow> number" where
  "fsub (Num a) (Num b) = to_double (a - b)"
| "fsub NaN _ = NaN"
| "fsub _ NaN = NaN"
| "fsub Infinity Infinity = NaN"
| "fsub NegInfinity NegInfinity = NaN"
| "fsub Infinity _ = Infinity"
| "fsub NegInfinity _ = NegInfinity"
| "fsub _ Infinity = NegInfinity"
| "fsub _ NegInfinity = Infinity"

fun positive :: "number \<Rightarrow> bool" where
  "positive (Num a) = (0 < a)"
| "positive Infinity = True"
| "positive _ = False"

fun fmul :: "number \<Rightarrow> number \<Rightarrow> number" where
  "fmul (Num a) (Num b) = to_double (a * b)"
| "fmul NaN _ = NaN"
| "fmul _ NaN = NaN"
| "fmul x y =
     (if x = Num 0 \<or> y = Num 0 then NaN
      else if positive x = positive y then Infinity else NegInfinity)"

definition isDigit :: "char \<Rightarrow> bool" where
  "isDigit c = (48 \<le> (of_char c :: nat) \<and> (of_char c :: nat) \<le> 57)"

definition digitsValue :: "string \<Rightarrow> int" where
  "digitsValue ds = foldl (\<lambda>acc c. 10 * acc + (int (of_char c) - 48)) 0 ds"

text \<open>
  \<^verbatim>\<open>Number.parseInt(s, 10)\<close>: leading white space is skipped, one sign is read, then
  the longest run of decimal digits; no digit gives \<^verbatim>\<open>NaN\<close>, and whatever follows the
  digits is ignored. The result is the double nearest to the integer the digits write, so
  \<^verbatim>\<open>9007199254740993\<close> reads as 9007199254740992.
\<close>

definition parseInt :: "string \<Rightarrow> number" where
  "parseInt s =
     (let t = dropWhile isWhiteSpace s;
          neg = (t \<noteq> [] \<and> hd t = CHR ''-'');
          u = (if t \<noteq> [] \<and> (hd t = CHR ''-'' \<or> hd t = CHR ''+'') then tl t else t);
          ds = takeWhile isDigit u
      in if ds = [] then NaN
         else to_double ((if neg then - 1 else 1) * digitsValue ds))"

text \<open>\<^verbatim>\<open>Math.max\<close> and \<^verbatim>\<open>Math.min\<close> return \<^verbatim>\<open>NaN\<close> as soon as an argument is.\<close>

definition Math_max :: "number \<Rightarrow> number \<Rightarrow> number" where
  "Math_max x y = (if x = NaN \<or> y = NaN then NaN else if fle x y then y else x)"

definition Math_min :: "number \<Rightarrow> number \<Rightarrow> number" where
  "Math_min x y = (if x = NaN \<or> y = NaN then NaN else if fle x y then x else y)"

text \<open>\<^verbatim>\<open>searchParams.get(k) || d\<close>: an absent and an empty parameter both give \<open>d\<close>.\<close>

definition or_default :: "string option \<Rightarrow> string \<Rightarrow> string" where
  "or_default v d = (case v of None \<Rightarrow> d | Some s \<Rightarrow> if s = [] then d else s)"

section \<open>GET /tasks: the pagination parameters (tasks/route.ts, lines 16-17)\<close>

definition page_param :: "string option \<Rightarrow> number" where
  "page_param p = Math_max (Num 1) (parseInt (or_default p ''1''))"

definition limit_param :: "string option \<Rightarrow> number" where
  "limit_param l = Math_min (Num 100) (Math_max (Num 1) (parseInt (or_default l ''10'')))"

definition in_range :: "int \<Rightarrow> int \<Rightarrow> number \<Rightarrow> bool" where
  "in_range lo hi x = (case x of Num n \<Rightarrow> lo \<le> n \<and> n \<le> hi | _ \<Rightarrow> False)"

section \<open>Data model (lib/types.ts)\<close>

text \<open>Instants are milliseconds since the epoch.\<close>

type_synonym time = nat

datatype TaskStatus = Pending | In_progress | Completed

datatype TaskPriority = Low | Medium | High

fun status_name :: "TaskStatus \<Rightarrow> string" where
  "status_name Pending = ''pending''"
| "status_name In_progress = ''in_progress''"
| "status_name Completed = ''completed''"

record Task =
  t_id :: string
  t_user_id :: string
  t_title :: string
  t_description :: "string option"
  t_status :: TaskStatus
  t_priority :: TaskPriority
  t_due_date :: "time option"
  t_created_at :: time
  t_updated_at :: time

record User =
  u_id :: string
  u_email :: string
  u_password_hash :: string
  u_name :: string
  u_created_at :: time

record UserPublic =
  up_id :: string
  up_email :: string
  up_name :: string
  up_created_at :: time

record RefreshToken =
  rt_id :: string
  rt_user_id :: string
  rt_token :: string
  rt_expires_at :: time
  rt_created_at :: time

record JWTPayload =
  userId :: string
  email :: string

record AuthTokens =
  accessToken :: string
  refreshToken :: string

text \<open>
  The relational store: one list of rows per table, and the counter from which the store
  draws the identifier of the next inserted row.
\<close>

record database =
  users :: "User list"
  refresh_tokens :: "RefreshToken list"
  tasks :: "Task list"
  next_id :: nat

text \<open>A parsed JSON request body. Numbers are only ever tested for their type and for zero.\<close>

datatype json =
  JNull | JBool bool | JNum int | JStr string | JArr "json list" | JObj "(string \<times> json) list"

text \<open>
  Property access \<^verbatim>\<open>body.k\<close>; \<open>None\<close> is \<^verbatim>\<open>undefined\<close>. \<^verbatim>\<open>JSON.parse\<close> keeps the
  last of several equal keys.
\<close>

fun get_prop :: "json \<Rightarrow> string \<Rightarrow> json option" where
  "get_prop (JObj kvs) k = map_of (rev kvs) k"
| "get_prop _ k = None"

fun truthy :: "json option \<Rightarrow> bool" where
  "truthy None = False"
| "truthy (Some JNull) = False"
| "truthy (Some (JBool b)) = b"
| "truthy (Some (JNum n)) = (n \<noteq> 0)"
| "truthy (Some (JStr s)) = (s \<noteq> [])"
| "truthy (Some (JArr _)) = True"
| "truthy (Some (JObj _)) = True"

fun is_string :: "json option \<Rightarrow> bool" where
  "is_string (Some (JStr _)) = True"
| "is_string _ = False"

text \<open>\<^verbatim>\<open>!data || typeof data !== "object"\<close> fails exactly for arrays and objects.\<close>

fun is_object :: "json \<Rightarrow> bool" where
  "is_object (JArr _) = True"
| "is_object (JObj _) = True"
| "is_object _ = False"

record ValidationError =
  ve_field :: string
  ve_message :: string

datatype response_data =
  TaskData "Task option" | TokensData AuthTokens | UserTokensData UserPublic AuthTokens

record ApiResponse =
  status :: nat
  success :: bool
  data :: "response_data option"
  error :: "string option"
  message :: "string option"

record PaginatedResponse =
  p_status :: nat
  p_success :: bool
  p_data :: "Task list"
  page :: int
  limit :: int
  total :: int
  totalPages :: int

section \<open>What the application takes from its libraries and its store\<close>

datatype secret = ACCESS_TOKEN_SECRET | REFRESH_TOKEN_SECRET

text \<open>The claims of a signed token; \<open>c_iat\<close> and \<open>c_exp\<close> are in seconds.\<close>

record jwt_claims =
  c_userId :: string
  c_email :: string
  c_iat :: nat
  c_exp :: nat

text \<open>
  The functions of jose, bcryptjs, the JavaScript runtime and PostgreSQL that the handlers
  call. They are parameters of the model:
  \<^item> \<open>signJWT k c\<close> is the compact HS256 token for the claims \<open>c\<close> under the secret \<open>k\<close>;
  \<^item> \<open>jwtVerify now k s\<close> is the claims of \<open>s\<close>, or \<open>None\<close> where \<^verbatim>\<open>jwtVerify\<close> throws;
  \<^item> \<open>bcrypt_hash\<close> is \<^verbatim>\<open>bcrypt.hash(_, 12)\<close> with the salt this request draws;
  \<^item> \<open>bcrypt_compare p h\<close> is the boolean of \<^verbatim>\<open>bcrypt.compare\<close>, or \<open>None\<close> where its
    promise rejects;
  \<^item> \<open>date_parse s\<close> is \<^verbatim>\<open>new Date(s).getTime()\<close>, \<open>None\<close> for an invalid date;
  \<^item> \<open>ilike title pattern\<close> is the operator \<^verbatim>\<open>title ILIKE pattern\<close>;
  \<^item> \<open>order_by_created_at_desc rows\<close> is the rows as \<^verbatim>\<open>ORDER BY created_at DESC\<close>
    returns them; among rows of equal \<open>created_at\<close> the order is the store's choice;
  \<^item> \<open>uuid n\<close> is the identifier the store gives to its \<open>n\<close>-th inserted row.
\<close>

record externals =
  signJWT :: "secret \<Rightarrow> jwt_claims \<Rightarrow> string"
  jwtVerify :: "time \<Rightarrow> secret \<Rightarrow> string \<Rightarrow> jwt_claims option"
  bcrypt_hash :: "string \<Rightarrow> string"
  bcrypt_compare :: "string \<Rightarrow> string \<Rightarrow> bool option"
  date_parse :: "string \<Rightarrow> time option"
  ilike :: "string \<Rightarrow> string \<Rightarrow> bool"
  order_by_created_at_desc :: "Task list \<Rightarrow> Task list"
  uuid :: "nat \<Rightarrow> string"

definition internal_error :: ApiResponse where
  "internal_error =
     \<lparr>status = 500, success = False, data = None,
      error = Some ''Internal server error'', message = None\<rparr>"

definition failure :: "nat \<Rightarrow> string \<Rightarrow> ApiResponse" where
  "failure code msg =
     \<lparr>status = code, success = False, data = None, error = Some msg, message = None\<rparr>"

text \<open>\<^verbatim>\<open>validation.errors[0]?.message || "Validation failed"\<close>\<close>

definition first_error :: "ValidationError list \<Rightarrow> string" where
  "first_error errors =
     (case errors of [] \<Rightarrow> ''Validation failed''
      | e # _ \<Rightarrow> if ve_message e = [] then ''Validation failed'' else ve_message e)"

section \<open>GET /tasks (tasks/route.ts, getTasks)\<close>

record query =
  q_page :: "string option"
  q_limit :: "string option"
  q_status :: "string option"
  q_search :: "string option"

text \<open>A query parameter counts as given when it is present and not empty.\<close>

definition given :: "string option \<Rightarrow> string option" where
  "given v = (case v of None \<Rightarrow> None | Some s \<Rightarrow> if s = [] then None else Some s)"

text \<open>
  The \<^verbatim>\<open>WHERE\<close> clause of the count query, chosen by the chain
  \<^verbatim>\<open>if (status && search) ... else if (status) ... else if (search) ... else\<close> of
  lines 27-46. The schema is not among the sources; the \<^verbatim>\<open>status\<close> column is compared
  with the parameter as text.
\<close>

definition count_where :: "externals \<Rightarrow> string \<Rightarrow> string option \<Rightarrow> string option \<Rightarrow> Task \<Rightarrow> bool" where
  "count_where X uid st search t =
     (case (given st, given search) of
        (Some s, Some q) \<Rightarrow>
          t_user_id t = uid \<and> status_name (t_status t) = s \<and> ilike X (t_title t) (''%'' @ trim q @ ''%'')
      | (Some s, None) \<Rightarrow> t_user_id t = uid \<and> status_name (t_status t) = s
      | (None, Some q) \<Rightarrow> t_user_id t = uid \<and> ilike X (t_title t) (''%'' @ trim q @ ''%'')
      | (None, None) \<Rightarrow> t_user_id t = uid)"

text \<open>The \<^verbatim>\<open>WHERE\<close> clause of the page query, chosen by the second chain, lines 51-83.\<close>

definition page_where :: "externals \<Rightarrow> string \<Rightarrow> string option \<Rightarrow> string option \<Rightarrow> Task \<Rightarrow> bool" where
  "page_where X uid st search t =
     (case (given st, given search) of
        (Some s, Some q) \<Rightarrow>
          t_user_id t = uid \<and> status_name (t_status t) = s \<and> ilike X (t_title t) (''%'' @ trim q @ ''%'')
      | (Some s, None) \<Rightarrow> t_user_id t = uid \<and> status_name (t_status t) = s
      | (None, Some q) \<Rightarrow> t_user_id t = uid \<and> ilike X (t_title t) (''%'' @ trim q @ ''%'')
      | (None, None) \<Rightarrow> t_user_id t = uid)"



text \<open>
  The store takes a \<^verbatim>\<open>bigint\<close> for \<^verbatim>\<open>LIMIT\<close> and for \<^verbatim>\<open>OFFSET\<close>. The driver sends the
  number as text; anything but an integer between \<open>- 2 ^ 63\<close> and \<open>2 ^ 63 - 1\<close> makes the
  query raise.
\<close>

definition bigint :: "number \<Rightarrow> int option" where
  "bigint x =
     (case x of
        Num n \<Rightarrow> if - (2 ^ 63) \<le> n \<and> n \<le> 2 ^ 63 - 1 then Some n else None
      | _ \<Rightarrow> None)"

definition getTasks_failed :: PaginatedResponse where
  "getTasks_failed =
     \<lparr>p_status = 500, p_success = False, p_data = [],
      page = 1, limit = 10, total = 0, totalPages = 0\<rparr>"

text \<open>
  The count query runs first and the page query second; when the page query raises, the
  handler's \<^verbatim>\<open>catch\<close> answers 500. The page query runs exactly when the limit and the
  offset are \<^verbatim>\<open>bigint\<close>s, and the page is then a number as well. The count comes back as
  text and is read by \<^verbatim>\<open>Number.parseInt\<close>. \<^verbatim>\<open>Math.ceil(total / limit)\<close> is given as the
  ceiling of the exact quotient, which it is for every total below \<open>2 ^ 53\<close> (the double
  quotient then lies between the same two integers as the exact one).
\<close>

definition getTasks :: "externals \<Rightarrow> JWTPayload \<Rightarrow> query \<Rightarrow> database \<Rightarrow> PaginatedResponse" where
  "getTasks X user q db =
     (let page' = page_param (q_page q);
          limit' = limit_param (q_limit q);
          offset = fmul (fsub page' (Num 1)) limit';
          count = length (filter (count_where X (userId user) (q_status q) (q_search q)) (tasks db));
          total' = int (round_nat count)
      in case (page', bigint limit', bigint offset) of
           (Num pg, Some li, Some off) \<Rightarrow>
             \<lparr>p_status = 200, p_success = True,
              p_data = take (nat li) (drop (nat off)
                         (order_by_created_at_desc X
                            (filter (page_where X (userId user) (q_status q) (q_search q))
                               (tasks db)))),
              page = pg, limit = li, total = total',
              totalPages = \<lceil>(of_int total' :: rat) / of_int li\<rceil>\<rparr>
         | _ \<Rightarrow> getTasks_failed)"


section \<open>Validation of a task update (lib/validation.ts, validateUpdateTask)\<close>

record UpdateTaskDTO =
  upd_title :: "string option"
  upd_description :: "string option"
  upd_status :: "TaskStatus option"
  upd_priority :: "TaskPriority option"
  upd_due_date :: "string option option"

text \<open>
  In the DTO \<open>None\<close> is \<^verbatim>\<open>undefined\<close>; for \<open>upd_due_date\<close>, \<open>Some None\<close> is \<^verbatim>\<open>null\<close>.
\<close>

definition verr :: "string \<Rightarrow> string \<Rightarrow> ValidationError" where
  "verr f m = \<lparr>ve_field = f, ve_message = m\<rparr>"

fun title_update_errors :: "json option \<Rightarrow> ValidationError list" where
  "title_update_errors None = []"
| "title_update_errors (Some (JStr s)) =
     (if length (trim s) < 1 then [verr ''title'' ''Title cannot be empty'']
      else if length (trim s) > 255 then [verr ''title'' ''Title must be less than 255 characters'']
      else [])"
| "title_update_errors (Some _) = [verr ''title'' ''Title must be a string'']"

fun description_update_errors :: "json option \<Rightarrow> ValidationError list" where
  "description_update_errors None = []"
| "description_update_errors (Some JNull) = []"
| "description_update_errors (Some (JStr s)) = []"
| "description_update_errors (Some _) =
     [verr ''description'' ''Description must be a string or null'']"

text \<open>\<^verbatim>\<open>validStatuses.includes(body.status)\<close> and \<^verbatim>\<open>validPriorities.includes(body.priority)\<close>\<close>

definition parse_status :: "json \<Rightarrow> TaskStatus option" where
  "parse_status v =
     (if v = JStr ''pending'' then Some Pending
      else if v = JStr ''in_progress'' then Some In_progress
      else if v = JStr ''completed'' then Some Completed
      else None)"

definition parse_priority :: "json \<Rightarrow> TaskPriority option" where
  "parse_priority v =
     (if v = JStr ''low'' then Some Low
      else if v = JStr ''medium'' then Some Medium
      else if v = JStr ''high'' then Some High
      else None)"

definition status_errors :: "json option \<Rightarrow> ValidationError list" where
  "status_errors v =
     (case v of None \<Rightarrow> []
      | Some x \<Rightarrow>
          if parse_status x = None
          then [verr ''status'' ''Status must be pending, in_progress, or completed'']
          else [])"

definition priority_errors :: "json option \<Rightarrow> ValidationError list" where
  "priority_errors v =
     (case v of None \<Rightarrow> []
      | Some x \<Rightarrow>
          if parse_priority x = None
          then [verr ''priority'' ''Priority must be low, medium, or high'']
          else [])"

fun due_date_update_errors :: "externals \<Rightarrow> json option \<Rightarrow> ValidationError list" where
  "due_date_update_errors X None = []"
| "due_date_update_errors X (Some JNull) = []"
| "due_date_update_errors X (Some (JStr s)) =
     (if date_parse X s = None then [verr ''due_date'' ''Invalid date format''] else [])"
| "due_date_update_errors X (Some _) = [verr ''due_date'' ''Due date must be a string or null'']"

fun dto_title :: "json option \<Rightarrow> string option" where
  "dto_title (Some (JStr s)) = Some (trim s)"
| "dto_title _ = None"

text \<open>
  Line 236: \<^verbatim>\<open>body.description === null ? undefined : body.description.trim()\<close>. A null
  description is stored in the DTO as \<^verbatim>\<open>undefined\<close>.
\<close>

fun dto_description :: "json option \<Rightarrow> string option" where
  "dto_description (Some (JStr s)) = Some (trim s)"
| "dto_description _ = None"

fun dto_due_date :: "json option \<Rightarrow> string option option" where
  "dto_due_date (Some JNull) = Some None"
| "dto_due_date (Some (JStr s)) = Some (Some s)"
| "dto_due_date _ = None"

definition hasAnyField :: "json \<Rightarrow> bool" where
  "hasAnyField body =
     (get_prop body ''title'' \<noteq> None \<or> get_prop body ''description'' \<noteq> None \<or>
      get_prop body ''status'' \<noteq> None \<or> get_prop body ''priority'' \<noteq> None \<or>
      get_prop body ''due_date'' \<noteq> None)"

definition update_errors :: "externals \<Rightarrow> json \<Rightarrow> ValidationError list" where
  "update_errors X body =
     (if hasAnyField body then [] else [verr ''body'' ''At least one field must be provided''])
     @ title_update_errors (get_prop body ''title'')
     @ description_update_errors (get_prop body ''description'')
     @ status_errors (get_prop body ''status'')
     @ priority_errors (get_prop body ''priority'')
     @ due_date_update_errors X (get_prop body ''due_date'')"

definition validateUpdateTask :: "externals \<Rightarrow> json \<Rightarrow> ValidationError list + UpdateTaskDTO" where
  "validateUpdateTask X data' =
     (if \<not> is_object data' then Inl [verr ''body'' ''Request body is required'']
      else if update_errors X data' \<noteq> [] then Inl (update_errors X data')
      else Inr \<lparr>upd_title = dto_title (get_prop data' ''title''),
                upd_description = dto_description (get_prop data' ''description''),
                upd_status = (case get_prop data' ''status'' of None \<Rightarrow> None | Some v \<Rightarrow> parse_status v),
                upd_priority = (case get_prop data' ''priority'' of None \<Rightarrow> None | Some v \<Rightarrow> parse_priority v),
                upd_due_date = dto_due_date (get_prop data' ''due_date'')\<rparr>)"

section \<open>Single-task handlers (tasks/[id]/route.ts and tasks/[id]/toggle/route.ts)\<close>

text \<open>\<^verbatim>\<open>rows[0]\<close>, which is \<^verbatim>\<open>undefined\<close> on an empty result.\<close>

definition first_row :: "'a list \<Rightarrow> 'a option" where
  "first_row rows = (case rows of [] \<Rightarrow> None | r # _ \<Rightarrow> Some r)"

text \<open>\<^verbatim>\<open>WHERE id = ${taskId} AND user_id = ${user.userId}\<close>\<close>

definition where_id_and_user :: "string \<Rightarrow> string \<Rightarrow> Task \<Rightarrow> bool" where
  "where_id_and_user taskId uid t = (t_id t = taskId \<and> t_user_id t = uid)"

definition task_not_found :: ApiResponse where
  "task_not_found = failure 404 ''Task not found''"

definition task_id_required :: ApiResponse where
  "task_id_required = failure 400 ''Task ID is required''"

definition ok_task :: "Task option \<Rightarrow> string option \<Rightarrow> ApiResponse" where
  "ok_task t msg =
     \<lparr>status = 200, success = True, data = Some (TaskData t), error = None, message = msg\<rparr>"

definition getTask :: "JWTPayload \<Rightarrow> string option \<Rightarrow> database \<Rightarrow> ApiResponse" where
  "getTask user params_id db =
     (case given params_id of
        None \<Rightarrow> task_id_required
      | Some taskId \<Rightarrow>
          (case filter (where_id_and_user taskId (userId user)) (tasks db) of
             [] \<Rightarrow> task_not_found
           | t # _ \<Rightarrow> ok_task (Some t) None))"

text \<open>
  The body is \<open>None\<close> where \<^verbatim>\<open>request.json()\<close> throws (no JSON in the request); the
  handler's \<^verbatim>\<open>catch\<close> then answers 500. \<open>now\<close> is the store's \<^verbatim>\<open>NOW()\<close>.
\<close>

definition merge_due_date :: "externals \<Rightarrow> string option option \<Rightarrow> time option \<Rightarrow> unit + time option" where
  "merge_due_date X upd existing =
     (case upd of
        None \<Rightarrow> Inr existing
      | Some None \<Rightarrow> Inr None
      | Some (Some s) \<Rightarrow>
          if s = [] then Inr None
          else (case date_parse X s of None \<Rightarrow> Inl () | Some d \<Rightarrow> Inr (Some d)))"

definition merge_task :: "UpdateTaskDTO \<Rightarrow> time option \<Rightarrow> time \<Rightarrow> Task \<Rightarrow> Task" where
  "merge_task updates newDueDate now existingTask =
     existingTask
       \<lparr>t_title := (case upd_title updates of Some x \<Rightarrow> x | None \<Rightarrow> t_title existingTask),
        t_description :=
          (case upd_description updates of
             Some d \<Rightarrow> (if d = [] then None else Some d)
           | None \<Rightarrow> t_description existingTask),
        t_status := (case upd_status updates of Some x \<Rightarrow> x | None \<Rightarrow> t_status existingTask),
        t_priority := (case upd_priority updates of Some x \<Rightarrow> x | None \<Rightarrow> t_priority existingTask),
        t_due_date := newDueDate,
        t_updated_at := now\<rparr>"

definition updateTask ::
  "externals \<Rightarrow> time \<Rightarrow> JWTPayload \<Rightarrow> string option \<Rightarrow> json option \<Rightarrow> database
     \<Rightarrow> ApiResponse \<times> database" where
  "updateTask X now user params_id body db =
     (case given params_id of
        None \<Rightarrow> (task_id_required, db)
      | Some taskId \<Rightarrow>
     (case body of
        None \<Rightarrow> (internal_error, db)
      | Some b \<Rightarrow>
     (case validateUpdateTask X b of
        Inl errors \<Rightarrow> (failure 400 (first_error errors), db)
      | Inr updates \<Rightarrow>
     (case filter (where_id_and_user taskId (userId user)) (tasks db) of
        [] \<Rightarrow> (task_not_found, db)
      | existingTask # _ \<Rightarrow>
     (case merge_due_date X (upd_due_date updates) (t_due_date existingTask) of
        Inl _ \<Rightarrow> (internal_error, db)
      | Inr newDueDate \<Rightarrow>
          (let hit = where_id_and_user taskId (userId user);
               set' = (\<lambda>row. (merge_task updates newDueDate now existingTask)
                         \<lparr>t_id := t_id row, t_user_id := t_user_id row,
                          t_created_at := t_created_at row\<rparr>);
               updatedTasks = map set' (filter hit (tasks db))
           in (ok_task (first_row updatedTasks) (Some ''Task updated successfully''),
               db\<lparr>tasks := map (\<lambda>row. if hit row then set' row else row) (tasks db)\<rparr>)))))))"

definition deleteTask ::
  "JWTPayload \<Rightarrow> string option \<Rightarrow> database \<Rightarrow> ApiResponse \<times> database" where
  "deleteTask user params_id db =
     (case given params_id of
        None \<Rightarrow> (task_id_required, db)
      | Some taskId \<Rightarrow>
          (let hit = where_id_and_user taskId (userId user);
               result = filter hit (tasks db);
               db' = db\<lparr>tasks := filter (\<lambda>row. \<not> hit row) (tasks db)\<rparr>
           in if length result = 0 then (task_not_found, db')
              else (\<lparr>status = 200, success = True, data = None, error = None,
                     message = Some ''Task deleted successfully''\<rparr>, db')))"

definition toggle_status :: "TaskStatus \<Rightarrow> TaskStatus" where
  "toggle_status currentStatus = (if currentStatus = Completed then Pending else Completed)"

definition toggleTask ::
  "time \<Rightarrow> JWTPayload \<Rightarrow> string option \<Rightarrow> database \<Rightarrow> ApiResponse \<times> database" where
  "toggleTask now user params_id db =
     (case given params_id of
        None \<Rightarrow> (task_id_required, db)
      | Some taskId \<Rightarrow>
          (case filter (where_id_and_user taskId (userId user)) (tasks db) of
             [] \<Rightarrow> (task_not_found, db)
           | existing # _ \<Rightarrow>
               (let newStatus = toggle_status (t_status existing);
                    hit = where_id_and_user taskId (userId user);
                    set' = (\<lambda>row. row\<lparr>t_status := newStatus, t_updated_at := now\<rparr>);
                    updatedTasks = map set' (filter hit (tasks db))
                in (ok_task (first_row updatedTasks)
                      (Some (''Task marked as '' @ status_name newStatus)),
                    db\<lparr>tasks := map (\<lambda>row. if hit row then set' row else row) (tasks db)\<rparr>))))"

section \<open>Validation of credentials (lib/validation.ts)\<close>

text \<open>
  \<^verbatim>\<open>/^[^\s@]+@[^\s@]+\.[^\s@]+$/.test(email)\<close>: a non-empty run free of white space and
  \<open>@\<close>, then \<open>@\<close>, then a run free of white space and \<open>@\<close> up to the end that has a dot
  with at least one character on each side.
\<close>

definition plain :: "char \<Rightarrow> bool" where
  "plain c = (\<not> isWhiteSpace c \<and> c \<noteq> CHR ''@'')"

definition isValidEmail :: "string \<Rightarrow> bool" where
  "isValidEmail email' =
     (let local = takeWhile plain email'; rest = dropWhile plain email'
      in local \<noteq> [] \<and> rest \<noteq> [] \<and> hd rest = CHR ''@'' \<and> list_all plain (tl rest) \<and>
         list_ex (\<lambda>i. tl rest ! i = CHR ''.'') [1 ..< length (tl rest) - 1])"

definition isValidPassword :: "string \<Rightarrow> bool" where
  "isValidPassword password = (length password \<ge> 8)"

record RegisterDTO =
  reg_email :: string
  reg_password :: string
  reg_name :: string

record LoginDTO =
  login_email :: string
  login_password :: string

text \<open>
  \<^verbatim>\<open>!body.email || typeof body.email !== "string"\<close> holds for everything but a non-empty
  string.
\<close>

fun email_errors :: "json option \<Rightarrow> ValidationError list" where
  "email_errors (Some (JStr s)) =
     (if s = [] then [verr ''email'' ''Email is required'']
      else if \<not> isValidEmail s then [verr ''email'' ''Invalid email format'']
      else [])"
| "email_errors _ = [verr ''email'' ''Email is required'']"

fun register_password_errors :: "json option \<Rightarrow> ValidationError list" where
  "register_password_errors (Some (JStr s)) =
     (if s = [] then [verr ''password'' ''Password is required'']
      else if \<not> isValidPassword s then [verr ''password'' ''Password must be at least 8 characters'']
      else [])"
| "register_password_errors _ = [verr ''password'' ''Password is required'']"

fun login_password_errors :: "json option \<Rightarrow> ValidationError list" where
  "login_password_errors (Some (JStr s)) =
     (if s = [] then [verr ''password'' ''Password is required''] else [])"
| "login_password_errors _ = [verr ''password'' ''Password is required'']"

fun name_errors :: "json option \<Rightarrow> ValidationError list" where
  "name_errors (Some (JStr s)) =
     (if s = [] then [verr ''name'' ''Name is required'']
      else if length (trim s) < 2 then [verr ''name'' ''Name must be at least 2 characters'']
      else [])"
| "name_errors _ = [verr ''name'' ''Name is required'']"

text \<open>The string under a key; only read once validation has shown it to be one.\<close>

definition str_prop :: "json \<Rightarrow> string \<Rightarrow> string" where
  "str_prop body k = (case get_prop body k of Some (JStr s) \<Rightarrow> s | _ \<Rightarrow> [])"

definition validateRegister :: "json \<Rightarrow> ValidationError list + RegisterDTO" where
  "validateRegister data' =
     (if \<not> is_object data' then Inl [verr ''body'' ''Request body is required'']
      else
        (let errors = email_errors (get_prop data' ''email'')
                    @ register_password_errors (get_prop data' ''password'')
                    @ name_errors (get_prop data' ''name'')
         in if length errors > 0 then Inl errors
            else Inr \<lparr>reg_email = trim (toLowerCase (str_prop data' ''email'')),
                      reg_password = str_prop data' ''password'',
                      reg_name = trim (str_prop data' ''name'')\<rparr>))"

definition validateLogin :: "json \<Rightarrow> ValidationError list + LoginDTO" where
  "validateLogin data' =
     (if \<not> is_object data' then Inl [verr ''body'' ''Request body is required'']
      else
        (let errors = email_errors (get_prop data' ''email'')
                    @ login_password_errors (get_prop data' ''password'')
         in if length errors > 0 then Inl errors
            else Inr \<lparr>login_email = trim (toLowerCase (str_prop data' ''email'')),
                      login_password = str_prop data' ''password''\<rparr>))"

section \<open>Passwords and tokens (lib/auth.ts)\<close>

definition hashPassword :: "externals \<Rightarrow> string \<Rightarrow> string" where
  "hashPassword X password = bcrypt_hash X password"

text \<open>
  \<^verbatim>\<open>return bcrypt.compare(password, hash)\<close>: the library's promise is returned as it is,
  so \<open>None\<close> (a rejection) passes through.
\<close>

definition verifyPassword :: "externals \<Rightarrow> string \<Rightarrow> string \<Rightarrow> bool option" where
  "verifyPassword X password hash = bcrypt_compare X password hash"

text \<open>
  \<^verbatim>\<open>setIssuedAt()\<close> stamps the current second and \<^verbatim>\<open>setExpirationTime("15m" | "7d")\<close>
  the second 900 or 604800 later; the other claims are \<^verbatim>\<open>userId\<close> and \<^verbatim>\<open>email\<close>.
\<close>

definition generateAccessToken :: "externals \<Rightarrow> time \<Rightarrow> JWTPayload \<Rightarrow> string" where
  "generateAccessToken X now payload =
     signJWT X ACCESS_TOKEN_SECRET
       \<lparr>c_userId = userId payload, c_email = email payload,
        c_iat = now div 1000, c_exp = now div 1000 + 900\<rparr>"

definition generateRefreshToken :: "externals \<Rightarrow> time \<Rightarrow> JWTPayload \<Rightarrow> string" where
  "generateRefreshToken X now payload =
     signJWT X REFRESH_TOKEN_SECRET
       \<lparr>c_userId = userId payload, c_email = email payload,
        c_iat = now div 1000, c_exp = now div 1000 + 604800\<rparr>"

definition generateTokens :: "externals \<Rightarrow> time \<Rightarrow> JWTPayload \<Rightarrow> AuthTokens" where
  "generateTokens X now payload =
     \<lparr>accessToken = generateAccessToken X now payload,
      refreshToken = generateRefreshToken X now payload\<rparr>"

definition verifyAccessToken :: "externals \<Rightarrow> time \<Rightarrow> string \<Rightarrow> JWTPayload option" where
  "verifyAccessToken X now token =
     (case jwtVerify X now ACCESS_TOKEN_SECRET token of
        Some payload \<Rightarrow> Some \<lparr>userId = c_userId payload, email = c_email payload\<rparr>
      | None \<Rightarrow> None)"

definition verifyRefreshToken :: "externals \<Rightarrow> time \<Rightarrow> string \<Rightarrow> JWTPayload option" where
  "verifyRefreshToken X now token =
     (case jwtVerify X now REFRESH_TOKEN_SECRET token of
        Some payload \<Rightarrow> Some \<lparr>userId = c_userId payload, email = c_email payload\<rparr>
      | None \<Rightarrow> None)"

text \<open>Seven days from now (on a server whose local time has no clock change in between).\<close>

definition getRefreshTokenExpiry :: "time \<Rightarrow> time" where
  "getRefreshTokenExpiry now = now + 7 * 24 * 60 * 60 * 1000"

section \<open>Inserts under the store's constraints\<close>

text \<open>
  Modelled from the spec: the table definitions (scripts/001-create-tables.sql) are not
  among the sources. Section 6 of the specification gives
  \<^verbatim>\<open>refresh_tokens(id, user_id, token unique, expires_at, created_at)\<close> and
  \<^verbatim>\<open>users(id, email unique, password_hash, name, created_at)\<close>: an insert that would
  repeat a token, or an email, raises (\<open>None\<close>). The store fills in \<open>id\<close> and
  \<open>created_at\<close>.
\<close>

definition insert_refresh_token ::
  "externals \<Rightarrow> time \<Rightarrow> string \<Rightarrow> string \<Rightarrow> time \<Rightarrow> database \<Rightarrow> database option" where
  "insert_refresh_token X now uid token expiresAt db =
     (if token \<in> set (map rt_token (refresh_tokens db)) then None
      else Some (db\<lparr>refresh_tokens := refresh_tokens db @
                      [\<lparr>rt_id = uuid X (next_id db), rt_user_id = uid, rt_token = token,
                        rt_expires_at = expiresAt, rt_created_at = now\<rparr>],
                    next_id := Suc (next_id db)\<rparr>))"

definition insert_user ::
  "externals \<Rightarrow> time \<Rightarrow> string \<Rightarrow> string \<Rightarrow> string \<Rightarrow> database
     \<Rightarrow> (UserPublic \<times> database) option" where
  "insert_user X now email' passwordHash name' db =
     (if email' \<in> set (map u_email (users db)) then None
      else Some (\<lparr>up_id = uuid X (next_id db), up_email = email', up_name = name',
                  up_created_at = now\<rparr>,
                 db\<lparr>users := users db @
                      [\<lparr>u_id = uuid X (next_id db), u_email = email',
                        u_password_hash = passwordHash, u_name = name', u_created_at = now\<rparr>],
                    next_id := Suc (next_id db)\<rparr>))"

section \<open>POST /auth/register, /auth/login and /auth/refresh\<close>

text \<open>
  Each handler runs at one instant \<open>now\<close>, read alike by the server's clock and the
  store's \<^verbatim>\<open>NOW()\<close>. A body is \<open>None\<close> where \<^verbatim>\<open>request.json()\<close> throws. Whatever is
  thrown inside a handler is caught there and answered with 500; the statements already
  run stay in effect, as the handlers open no transaction.
\<close>

definition register_POST ::
  "externals \<Rightarrow> time \<Rightarrow> json option \<Rightarrow> database \<Rightarrow> ApiResponse \<times> database" where
  "register_POST X now body db =
     (case body of
        None \<Rightarrow> (internal_error, db)
      | Some b \<Rightarrow>
     (case validateRegister b of
        Inl errors \<Rightarrow> (failure 400 (first_error errors), db)
      | Inr d \<Rightarrow>
          (let existingUsers = filter (\<lambda>u. u_email u = reg_email d) (users db)
           in if length existingUsers > 0 then (failure 409 ''Email already registered'', db)
              else
                (let passwordHash = hashPassword X (reg_password d)
                 in case insert_user X now (reg_email d) passwordHash (reg_name d) db of
                      None \<Rightarrow> (internal_error, db)
                    | Some (user, db1) \<Rightarrow>
                        (let tokens = generateTokens X now
                                        \<lparr>userId = up_id user, email = up_email user\<rparr>;
                             expiresAt = getRefreshTokenExpiry now
                         in case insert_refresh_token X now (up_id user) (refreshToken tokens)
                                   expiresAt db1 of
                              None \<Rightarrow> (internal_error, db1)
                            | Some db2 \<Rightarrow>
                                (\<lparr>status = 201, success = True,
                                  data = Some (UserTokensData user tokens), error = None,
                                  message = Some ''Registration successful''\<rparr>, db2))))))"

definition invalid_credentials :: ApiResponse where
  "invalid_credentials = failure 401 ''Invalid email or password''"

definition login_POST ::
  "externals \<Rightarrow> time \<Rightarrow> json option \<Rightarrow> database \<Rightarrow> ApiResponse \<times> database" where
  "login_POST X now body db =
     (case body of
        None \<Rightarrow> (internal_error, db)
      | Some b \<Rightarrow>
     (case validateLogin b of
        Inl errors \<Rightarrow> (failure 400 (first_error errors), db)
      | Inr d \<Rightarrow>
     (case filter (\<lambda>u. u_email u = login_email d) (users db) of
        [] \<Rightarrow> (failure 401 ''Invalid email or password'', db)
      | user # _ \<Rightarrow>
     (case verifyPassword X (login_password d) (u_password_hash user) of
        None \<Rightarrow> (internal_error, db)
      | Some isValidPassword' \<Rightarrow>
          if \<not> isValidPassword' then (failure 401 ''Invalid email or password'', db)
          else
            (let tokens = generateTokens X now \<lparr>userId = u_id user, email = u_email user\<rparr>;
                 expiresAt = getRefreshTokenExpiry now
             in case insert_refresh_token X now (u_id user) (refreshToken tokens) expiresAt db of
                  None \<Rightarrow> (internal_error, db)
                | Some db1 \<Rightarrow>
                    (\<lparr>status = 200, success = True,
                      data = Some (UserTokensData
                                     \<lparr>up_id = u_id user, up_email = u_email user,
                                      up_name = u_name user, up_created_at = u_created_at user\<rparr>
                                     tokens),
                      error = None, message = Some ''Login successful''\<rparr>, db1))))))"

text \<open>
  \<^verbatim>\<open>const { refreshToken } = body\<close> throws on \<^verbatim>\<open>null\<close> and reads \<^verbatim>\<open>undefined\<close> from any
  other value that is not an object with that key.
\<close>

definition refresh_POST ::
  "externals \<Rightarrow> time \<Rightarrow> json option \<Rightarrow> database \<Rightarrow> ApiResponse \<times> database" where
  "refresh_POST X now body db =
     (case body of
        None \<Rightarrow> (internal_error, db)
      | Some JNull \<Rightarrow> (internal_error, db)
      | Some b \<Rightarrow>
     (case get_prop b ''refreshToken'' of
        Some (JStr token) \<Rightarrow>
          if token = [] then (failure 400 ''Refresh token is required'', db)
          else
     (case verifyRefreshToken X now token of
        None \<Rightarrow> (failure 401 ''Invalid refresh token'', db)
      | Some payload \<Rightarrow>
     (case filter (\<lambda>r. rt_token r = token \<and> rt_expires_at r > now) (refresh_tokens db) of
        [] \<Rightarrow> (failure 401 ''Refresh token expired or revoked'', db)
      | storedToken # _ \<Rightarrow>
     (case filter (\<lambda>u. u_id u = rt_user_id storedToken) (users db) of
        [] \<Rightarrow> (failure 401 ''User not found'', db)
      | user # _ \<Rightarrow>
          (let db1 = db\<lparr>refresh_tokens :=
                          filter (\<lambda>r. rt_id r \<noteq> rt_id storedToken) (refresh_tokens db)\<rparr>;
               newTokens = generateTokens X now \<lparr>userId = u_id user, email = u_email user\<rparr>;
               expiresAt = getRefreshTokenExpiry now
           in case insert_refresh_token X now (u_id user) (refreshToken newTokens) expiresAt db1 of
                None \<Rightarrow> (internal_error, db1)
              | Some db2 \<Rightarrow>
                  (\<lparr>status = 200, success = True, data = Some (TokensData newTokens),
                    error = None, message = Some ''Tokens refreshed successfully''\<rparr>, db2)))))
      | _ \<Rightarrow> (failure 400 ''Refresh token is required'', db)))"

section \<open>Request bodies (lib/api-client.ts)\<close>

definition login_body :: "string \<Rightarrow> string \<Rightarrow> json" where
  "login_body e p = JObj [(''email'', JStr e), (''password'', JStr p)]"

definition register_body :: "string \<Rightarrow> string \<Rightarrow> string \<Rightarrow> json" where
  "register_body e p n = JObj [(''email'', JStr e), (''password'', JStr p), (''name'', JStr n)]"

definition refresh_body :: "string \<Rightarrow> json" where
  "refresh_body t = JObj [(''refreshToken'', JStr t)]"

section \<open>Sample data\<close>

text \<open>
  Stand-ins for the libraries and a small store, on which the handlers are run for the
  concrete instances below. The sample token is the secret's tag, the user id, the email
  and the issue second in unary, separated by bars.
\<close>

definition demo_sign :: "secret \<Rightarrow> jwt_claims \<Rightarrow> string" where
  "demo_sign k c =
     (if k = ACCESS_TOKEN_SECRET then ''a'' else ''r'') @ ''|'' @ c_userId c @ ''|'' @ c_email c
       @ ''|'' @ replicate (c_iat c) (CHR ''i'')"

definition demo_verify :: "time \<Rightarrow> secret \<Rightarrow> string \<Rightarrow> jwt_claims option" where
  "demo_verify now k s =
     (let bar = (\<lambda>c. c \<noteq> CHR ''|'');
          tag = takeWhile bar s; r1 = drop 1 (dropWhile bar s);
          uid = takeWhile bar r1; r2 = drop 1 (dropWhile bar r1);
          em = takeWhile bar r2; r3 = drop 1 (dropWhile bar r2);
          life = (if k = ACCESS_TOKEN_SECRET then 900 else 604800)
      in if tag = (if k = ACCESS_TOKEN_SECRET then ''a'' else ''r'')
            \<and> list_all (\<lambda>c. c = CHR ''i'') r3 \<and> now div 1000 < length r3 + life
         then Some \<lparr>c_userId = uid, c_email = em, c_iat = length r3, c_exp = length r3 + life\<rparr>
         else None)"

definition demo :: externals where
  "demo =
     \<lparr>signJWT = demo_sign, jwtVerify = demo_verify,
      bcrypt_hash = (\<lambda>p. ''$2b$12$'' @ rev p),
      bcrypt_compare = (\<lambda>p h. Some (h = ''$2b$12$'' @ rev p)),
      date_parse = (\<lambda>s. if s = ''2024-01-15'' then Some 1705276800000 else None),
      ilike = (\<lambda>title pattern. toLowerCase pattern = ''%'' @ toLowerCase title @ ''%''),
      order_by_created_at_desc = (\<lambda>rows. rev (sort_key t_created_at rows)),
      uuid = (\<lambda>n. replicate (Suc n) (CHR ''#''))\<rparr>"

definition alice :: JWTPayload where
  "alice = \<lparr>userId = ''u1'', email = ''alice@example.com''\<rparr>"

definition bob :: JWTPayload where
  "bob = \<lparr>userId = ''u2'', email = ''bob@example.com''\<rparr>"

definition demo_task :: "string \<Rightarrow> nat \<Rightarrow> Task" where
  "demo_task uid n =
     \<lparr>t_id = uid @ ''-'' @ replicate n (CHR ''t''), t_user_id = uid, t_title = ''Buy milk'',
      t_description = Some ''two litres'', t_status = Pending, t_priority = Medium,
      t_due_date = None, t_created_at = 1000 + n, t_updated_at = 1000 + n\<rparr>"

text \<open>A registered user and a refresh token issued to her at instant 5200.\<close>

definition alice_row :: User where
  "alice_row =
     \<lparr>u_id = ''u1'', u_email = ''alice@example.com'', u_password_hash = ''$2b$12$321drowssap'',
      u_name = ''Alice'', u_created_at = 1000\<rparr>"

definition alice_token :: string where
  "alice_token = ''r|u1|alice@example.com|iiiii''"

definition demo_auth_db :: database where
  "demo_auth_db =
     \<lparr>users = [alice_row],
      refresh_tokens =
        [\<lparr>rt_id = ''##'', rt_user_id = ''u1'', rt_token = alice_token,
          rt_expires_at = 604805200, rt_created_at = 5200\<rparr>],
      tasks = [], next_id = 2\<rparr>"

text \<open>A store holding \<open>a\<close> tasks of user \<open>u1\<close> and \<open>b\<close> tasks of user \<open>u2\<close>.\<close>

definition demo_db :: "nat \<Rightarrow> nat \<Rightarrow> database" where
  "demo_db a b =
     \<lparr>users = [], refresh_tokens = [],
      tasks = map (demo_task ''u1'') [0 ..< a] @ map (demo_task ''u2'') [0 ..< b],
      next_id = a + b\<rparr>"


section \<open>Pagination\<close>

lemma small_pow: "(2::nat) ^ 53 \<le> 2 ^ 1024"
  by (rule power_increasing) simp_all

lemma round_nat_small: "m < 2 ^ 53 \<Longrightarrow> round_nat m = m"
  by (simp add: round_nat_def)

lemma to_double_small:
  assumes "\<bar>n\<bar> < 2 ^ 53"
  shows "to_double n = Num n"
proof -
  from assms have m: "nat \<bar>n\<bar> < 2 ^ 53"
    by (simp add: nat_less_iff)
  then have r: "round_nat (nat \<bar>n\<bar>) = nat \<bar>n\<bar>"
    by (rule round_nat_small)
  have "\<not> (2::nat) ^ 1024 \<le> nat \<bar>n\<bar>"
    using m small_pow by linarith
  then show ?thesis
    unfolding to_double_def Let_def r by auto
qed


lemma page_param_Num_range: "page_param p = Num pg \<Longrightarrow> 1 \<le> pg"
  by (cases "parseInt (or_default p ''1'')") (auto simp: page_param_def Math_max_def split: if_splits)

lemma page_param_absent: "page_param None = Num 1"
  by (simp add: page_param_def or_default_def parseInt_def isWhiteSpace_def isDigit_def
      digitsValue_def Math_max_def to_double_small)

lemma limit_param_absent: "limit_param None = Num 10"
  by (simp add: limit_param_def or_default_def parseInt_def isWhiteSpace_def isDigit_def
      digitsValue_def Math_max_def Math_min_def to_double_small)


















text \<open>
  Claim C6, at the request \<^verbatim>\<open>GET /tasks?page=abc&limit=abc\<close>. \<^verbatim>\<open>parseInt\<close> yields
  \<^verbatim>\<open>NaN\<close>, which \<^verbatim>\<open>Math.max\<close> and \<^verbatim>\<open>Math.min\<close> hand on: the effective limit is not
  within 1 and 100, the effective page is not a number, and the request ends in the
  handler's 500 answer.
\<close>

theorem limit_page_not_a_number:
  "limit_param (Some ''abc'') = NaN
   \<and> \<not> in_range 1 100 (limit_param (Some ''abc''))
   \<and> page_param (Some ''abc'') = NaN
   \<and> getTasks demo alice
        \<lparr>q_page = Some ''abc'', q_limit = Some ''abc'', q_status = None, q_search = None\<rparr>
        (demo_db 25 4) = getTasks_failed"
  by (simp add: limit_param_def page_param_def or_default_def parseInt_def isWhiteSpace_def
      isDigit_def digitsValue_def in_range_def getTasks_def Math_max_def Math_min_def Let_def)

text \<open>What does hold of the parameters: the defaults, and the bounds for every numeric value.\<close>

lemma list_parameters_when_numeric:
  "page_param None = Num 1 \<and> limit_param None = Num 10
   \<and> (parseInt (or_default p ''1'') \<noteq> NaN \<longrightarrow> fle (Num 1) (page_param p))
   \<and> (parseInt (or_default l ''10'') \<noteq> NaN \<longrightarrow> in_range 1 100 (limit_param l))"
proof -
  have "fle (Num 1) (page_param p)" if "parseInt (or_default p ''1'') \<noteq> NaN"
    using that by (cases "parseInt (or_default p ''1'')") (auto simp: page_param_def Math_max_def)
  moreover have "in_range 1 100 (limit_param l)" if "parseInt (or_default l ''10'') \<noteq> NaN"
    using that
    by (cases "parseInt (or_default l ''10'')")
      (auto simp: limit_param_def in_range_def Math_max_def Math_min_def)
  ultimately show ?thesis
    using page_param_absent limit_param_absent by blast
qed

section \<open>Single-task requests\<close>

lemma same_id_same_row:
  "distinct (map t_id ts) \<Longrightarrow> t \<in> set ts \<Longrightarrow> r \<in> set ts \<Longrightarrow> t_id r = t_id t \<Longrightarrow> r = t"
  by (meson distinct_map inj_onD)

lemma filter_absent:
  assumes "j \<notin> t_id ` set ts"
  shows "filter (where_id_and_user j uid) ts = []"
  using assms by (auto simp: filter_empty_conv where_id_and_user_def)

lemma filter_owned:
  assumes "distinct (map t_id ts)" and "t \<in> set ts"
  shows "filter (where_id_and_user (t_id t) (t_user_id t)) ts = [t]"
  using assms
proof (induction ts)
  case Nil
  then show ?case by simp
next
  case (Cons a ts)
  show ?case
  proof (cases "a = t")
    case True
    have "t_id t \<notin> t_id ` set ts"
      using Cons.prems(1) True by simp
    then have "filter (where_id_and_user (t_id t) (t_user_id t)) ts = []"
      by (rule filter_absent)
    moreover have "where_id_and_user (t_id t) (t_user_id t) t"
      by (simp add: where_id_and_user_def)
    ultimately show ?thesis using True by simp
  next
    case False
    then have in_ts: "t \<in> set ts" using Cons.prems(2) by simp
    then have "t_id a \<noteq> t_id t" using Cons.prems(1) by auto
    then have "\<not> where_id_and_user (t_id t) (t_user_id t) a"
      by (simp add: where_id_and_user_def)
    then show ?thesis
      using Cons.IH Cons.prems(1) in_ts by simp
  qed
qed

lemma filter_foreign:
  assumes "distinct (map t_id ts)" and "t \<in> set ts" and "t_user_id t \<noteq> uid"
  shows "filter (where_id_and_user (t_id t) uid) ts = []"
proof -
  have "\<not> where_id_and_user (t_id t) uid r" if "r \<in> set ts" for r
    using same_id_same_row [OF assms(1,2) that] assms(3)
    by (auto simp: where_id_and_user_def)
  then show ?thesis by (simp add: filter_empty_conv)
qed

lemma update_owned:
  assumes "distinct (map t_id ts)" and "t \<in> set ts"
  shows "map (\<lambda>row. if where_id_and_user (t_id t) (t_user_id t) row then f row else row) ts
       = map (\<lambda>row. if row = t then f row else row) ts"
proof (rule map_cong [OF refl])
  fix r assume "r \<in> set ts"
  then show "(if where_id_and_user (t_id t) (t_user_id t) r then f r else r)
           = (if r = t then f r else r)"
    using same_id_same_row [OF assms] by (auto simp: where_id_and_user_def)
qed

lemma no_hit_filter:
  "filter hit ts = [] \<Longrightarrow> filter (\<lambda>row. \<not> hit row) ts = ts"
  by (simp add: filter_empty_conv)

lemma given_Some: "i \<noteq> [] \<Longrightarrow> given (Some i) = Some i"
  by (simp add: given_def)

lemma toggleTask_owned:
  assumes pk: "distinct (map t_id (tasks db))"
    and t: "t \<in> set (tasks db)"
    and own: "t_user_id t = userId user"
    and i: "t_id t \<noteq> []"
  shows "toggleTask now user (Some (t_id t)) db =
           (ok_task (Some (t\<lparr>t_status := toggle_status (t_status t), t_updated_at := now\<rparr>))
              (Some (''Task marked as '' @ status_name (toggle_status (t_status t)))),
            db\<lparr>tasks := map (\<lambda>row. if row = t
                                    then t\<lparr>t_status := toggle_status (t_status t),
                                           t_updated_at := now\<rparr>
                                    else row) (tasks db)\<rparr>)"
proof -
  have "map (\<lambda>row. if row = t then row\<lparr>t_status := s, t_updated_at := now\<rparr> else row) (tasks db)
      = map (\<lambda>row. if row = t then t\<lparr>t_status := s, t_updated_at := now\<rparr> else row) (tasks db)"
    for s
    by (rule map_cong [OF refl]) simp
  then show ?thesis
    using filter_owned [OF pk t] own i
    by (simp add: toggleTask_def given_Some first_row_def Let_def
        update_owned [OF pk t, unfolded own])
qed

lemma replace_row_ids:
  "t_id t' = t_id t \<Longrightarrow> map t_id (map (\<lambda>row. if row = t then t' else row) ts) = map t_id ts"
  by (induction ts) auto

text \<open>
  Claim C3. For a task the requester owns, toggling answers 200 with the task, and stores
  it, with status \<open>Pending\<close> if it was \<open>Completed\<close> and \<open>Completed\<close> otherwise; no other
  row changes. Hence a \<open>Pending\<close> task toggled twice is \<open>Pending\<close> again, and an
  \<open>In_progress\<close> task toggled once is \<open>Completed\<close>. The task identifiers are the table's
  key, so they are distinct.
\<close>

theorem toggle_semantics:
  assumes pk: "distinct (map t_id (tasks db))"
    and t: "t \<in> set (tasks db)"
    and own: "t_user_id t = userId user"
    and i: "t_id t \<noteq> []"
  shows "status (fst (toggleTask now user (Some (t_id t)) db)) = 200
    \<and> data (fst (toggleTask now user (Some (t_id t)) db)) =
        Some (TaskData (Some (t\<lparr>t_status := (if t_status t = Completed then Pending else Completed),
                                 t_updated_at := now\<rparr>)))
    \<and> snd (toggleTask now user (Some (t_id t)) db) =
        db\<lparr>tasks := map (\<lambda>row. if row = t
                                then t\<lparr>t_status := (if t_status t = Completed then Pending
                                                      else Completed),
                                       t_updated_at := now\<rparr>
                                else row) (tasks db)\<rparr>
    \<and> (t_status t = Pending \<longrightarrow>
         data (fst (toggleTask now' user (Some (t_id t))
                      (snd (toggleTask now user (Some (t_id t)) db)))) =
           Some (TaskData (Some (t\<lparr>t_status := Pending, t_updated_at := now'\<rparr>))))
    \<and> (t_status t = In_progress \<longrightarrow>
         data (fst (toggleTask now user (Some (t_id t)) db)) =
           Some (TaskData (Some (t\<lparr>t_status := Completed, t_updated_at := now\<rparr>))))"
proof -
  let ?t1 = "t\<lparr>t_status := toggle_status (t_status t), t_updated_at := now\<rparr>"
  let ?db1 = "db\<lparr>tasks := map (\<lambda>row. if row = t then ?t1 else row) (tasks db)\<rparr>"
  have once: "toggleTask now user (Some (t_id t)) db =
      (ok_task (Some ?t1) (Some (''Task marked as '' @ status_name (toggle_status (t_status t)))),
       ?db1)"
    by (rule toggleTask_owned [OF pk t own i])
  have "map t_id (map (\<lambda>row. if row = t then ?t1 else row) (tasks db)) = map t_id (tasks db)"
    by (rule replace_row_ids) simp
  then have pk1: "distinct (map t_id (tasks ?db1))"
    using pk by (simp del: map_map)
  have t1: "?t1 \<in> set (tasks ?db1)"
    using t by (auto simp: image_iff)
  have twice: "toggleTask now' user (Some (t_id t)) ?db1 =
      (ok_task (Some (?t1\<lparr>t_status := toggle_status (t_status ?t1), t_updated_at := now'\<rparr>))
         (Some (''Task marked as '' @ status_name (toggle_status (t_status ?t1)))),
       ?db1\<lparr>tasks := map (\<lambda>row. if row = ?t1
                                 then ?t1\<lparr>t_status := toggle_status (t_status ?t1),
                                          t_updated_at := now'\<rparr>
                                 else row) (tasks ?db1)\<rparr>)"
    using toggleTask_owned [OF pk1 t1, of user now'] own i by simp
  show ?thesis
    unfolding once using twice
    by (simp add: once ok_task_def toggle_status_def)
qed


lemma demo_pk: "distinct (map t_id (tasks (demo_db (Suc 0) (Suc 0))))"
  by (simp add: demo_db_def demo_task_def)

lemma demo_mine: "demo_task ''u1'' 0 \<in> set (tasks (demo_db (Suc 0) (Suc 0)))"
  by (simp add: demo_db_def)

lemma demo_theirs: "demo_task ''u2'' 0 \<in> set (tasks (demo_db (Suc 0) (Suc 0)))"
  by (simp add: demo_db_def)

theorem toggle_semantics_witness:
  "data (fst (toggleTask 5000 alice (Some ''u1-'') (demo_db (Suc 0) (Suc 0)))) =
     Some (TaskData (Some ((demo_task ''u1'' 0)\<lparr>t_status := Completed, t_updated_at := 5000\<rparr>)))
   \<and> data (fst (toggleTask 6000 alice (Some ''u1-'')
                  (snd (toggleTask 5000 alice (Some ''u1-'') (demo_db (Suc 0) (Suc 0)))))) =
     Some (TaskData (Some ((demo_task ''u1'' 0)\<lparr>t_status := Pending, t_updated_at := 6000\<rparr>)))"
proof -
  have own: "t_user_id (demo_task ''u1'' 0) = userId alice"
    by (simp add: demo_task_def alice_def)
  have i: "t_id (demo_task ''u1'' 0) \<noteq> []"
    by (simp add: demo_task_def)
  have s: "t_status (demo_task ''u1'' 0) = Pending" and n: "t_id (demo_task ''u1'' 0) = ''u1-''"
    by (simp_all add: demo_task_def)
  note T = toggle_semantics [OF demo_pk demo_mine own i, of 5000 6000, unfolded n]
  from T have
    "data (fst (toggleTask 5000 alice (Some ''u1-'') (demo_db (Suc 0) (Suc 0)))) =
       Some (TaskData (Some ((demo_task ''u1'' 0)
         \<lparr>t_status := (if t_status (demo_task ''u1'' 0) = Completed then Pending else Completed),
          t_updated_at := 5000\<rparr>)))"
    and "t_status (demo_task ''u1'' 0) = Pending \<longrightarrow>
       data (fst (toggleTask 6000 alice (Some ''u1-'')
                    (snd (toggleTask 5000 alice (Some ''u1-'') (demo_db (Suc 0) (Suc 0)))))) =
       Some (TaskData (Some ((demo_task ''u1'' 0)\<lparr>t_status := Pending, t_updated_at := 6000\<rparr>)))"
    by blast+
  then show ?thesis
    using s by simp
qed

lemma getTask_none:
  "i \<noteq> [] \<Longrightarrow> filter (where_id_and_user i (userId user)) (tasks db) = [] \<Longrightarrow>
   getTask user (Some i) db = failure 404 ''Task not found''"
  by (simp add: getTask_def given_Some task_not_found_def)

lemma deleteTask_none:
  "i \<noteq> [] \<Longrightarrow> filter (where_id_and_user i (userId user)) (tasks db) = [] \<Longrightarrow>
   deleteTask user (Some i) db = (failure 404 ''Task not found'', db)"
  by (simp add: deleteTask_def given_Some task_not_found_def Let_def no_hit_filter)

lemma toggleTask_none:
  "i \<noteq> [] \<Longrightarrow> filter (where_id_and_user i (userId user)) (tasks db) = [] \<Longrightarrow>
   toggleTask now user (Some i) db = (failure 404 ''Task not found'', db)"
  by (simp add: toggleTask_def given_Some task_not_found_def)

lemma updateTask_none:
  "i \<noteq> [] \<Longrightarrow> filter (where_id_and_user i (userId user)) (tasks db) = [] \<Longrightarrow>
   updateTask X now user (Some i) body db =
     (case body of
        None \<Rightarrow> (internal_error, db)
      | Some b \<Rightarrow>
          (case validateUpdateTask X b of
             Inl errors \<Rightarrow> (failure 400 (first_error errors), db)
           | Inr updates \<Rightarrow> (failure 404 ''Task not found'', db)))"
  by (simp add: updateTask_def given_Some task_not_found_def split: option.splits sum.splits)

text \<open>
  Claim C2, as amended. For a task owned by someone else, \<open>getTask\<close>, \<open>deleteTask\<close> and
  \<open>toggleTask\<close> answer 404 "Task not found" and leave the store as it is. \<open>updateTask\<close>
  answers 404 when the body passes validation; a body that fails validation is answered
  with its 400, and a request without JSON with 500, before any row is looked up. In each
  case the store is unchanged and the answer is the one given for an identifier that no
  task has.
\<close>

theorem user_isolation:
  assumes pk: "distinct (map t_id (tasks db))"
    and t: "t \<in> set (tasks db)"
    and other: "t_user_id t \<noteq> userId user"
    and i: "t_id t \<noteq> []"
  shows "getTask user (Some (t_id t)) db = failure 404 ''Task not found''
    \<and> deleteTask user (Some (t_id t)) db = (failure 404 ''Task not found'', db)
    \<and> toggleTask now user (Some (t_id t)) db = (failure 404 ''Task not found'', db)
    \<and> updateTask X now user (Some (t_id t)) body db =
        (case body of
           None \<Rightarrow> (internal_error, db)
         | Some b \<Rightarrow>
             (case validateUpdateTask X b of
                Inl errors \<Rightarrow> (failure 400 (first_error errors), db)
              | Inr updates \<Rightarrow> (failure 404 ''Task not found'', db)))
    \<and> (\<forall>j. j \<noteq> [] \<and> j \<notin> t_id ` set (tasks db) \<longrightarrow>
          getTask user (Some j) db = getTask user (Some (t_id t)) db
          \<and> deleteTask user (Some j) db = deleteTask user (Some (t_id t)) db
          \<and> toggleTask now user (Some j) db = toggleTask now user (Some (t_id t)) db
          \<and> updateTask X now user (Some j) body db = updateTask X now user (Some (t_id t)) body db)"
proof -
  have none: "filter (where_id_and_user (t_id t) (userId user)) (tasks db) = []"
    by (rule filter_foreign [OF pk t other])
  have absent: "filter (where_id_and_user j (userId user)) (tasks db) = []"
    if "j \<notin> t_id ` set (tasks db)" for j
    using that by (rule filter_absent)
  show ?thesis
    by (simp add: getTask_none [OF i none] deleteTask_none [OF i none]
        toggleTask_none [OF i none] updateTask_none [OF i none]
        getTask_none deleteTask_none toggleTask_none updateTask_none absent)
qed

text \<open>
  Claim C2 as stated fails for \<^verbatim>\<open>PATCH /tasks/:id\<close>: with the body \<^verbatim>\<open>{}\<close> the request of
  \<open>alice\<close> for a task of user \<open>u2\<close> is answered 400, not 404.
\<close>

theorem update_foreign_task_invalid_body:
  "demo_task ''u2'' 0 \<in> set (tasks (demo_db (Suc 0) (Suc 0)))
   \<and> t_user_id (demo_task ''u2'' 0) \<noteq> userId alice
   \<and> t_id (demo_task ''u2'' 0) = ''u2-''
   \<and> updateTask demo 5000 alice (Some ''u2-'') (Some (JObj [])) (demo_db (Suc 0) (Suc 0)) =
       (failure 400 ''At least one field must be provided'', demo_db (Suc 0) (Suc 0))
   \<and> status (failure 400 ''At least one field must be provided'') \<noteq> 404"
  by (simp add: demo_db_def demo_task_def alice_def updateTask_def given_def
      validateUpdateTask_def update_errors_def hasAnyField_def status_errors_def
      priority_errors_def first_error_def verr_def failure_def)

theorem user_isolation_witness:
  "getTask alice (Some ''u2-'') (demo_db (Suc 0) (Suc 0)) = failure 404 ''Task not found''
   \<and> deleteTask alice (Some ''u2-'') (demo_db (Suc 0) (Suc 0)) =
       (failure 404 ''Task not found'', demo_db (Suc 0) (Suc 0))
   \<and> updateTask demo 5000 alice (Some ''u2-'') (Some (JObj [(''status'', JStr ''completed'')]))
       (demo_db (Suc 0) (Suc 0)) = (failure 404 ''Task not found'', demo_db (Suc 0) (Suc 0))
   \<and> getTask alice (Some ''nowhere'') (demo_db (Suc 0) (Suc 0)) =
       getTask alice (Some ''u2-'') (demo_db (Suc 0) (Suc 0))"
proof -
  have other: "t_user_id (demo_task ''u2'' 0) \<noteq> userId alice"
    by (simp add: demo_task_def alice_def)
  have i: "t_id (demo_task ''u2'' 0) \<noteq> []"
    by (simp add: demo_task_def)
  have n: "t_id (demo_task ''u2'' 0) = ''u2-''"
    by (simp add: demo_task_def)
  have j: "''nowhere'' \<noteq> [] \<and> ''nowhere'' \<notin> t_id ` set (tasks (demo_db (Suc 0) (Suc 0)))"
    by (simp add: demo_db_def demo_task_def)
  have v: "validateUpdateTask demo (JObj [(''status'', JStr ''completed'')]) =
      Inr \<lparr>upd_title = None, upd_description = None, upd_status = Some Completed,
           upd_priority = None, upd_due_date = None\<rparr>"
    by (simp add: validateUpdateTask_def update_errors_def hasAnyField_def status_errors_def
        priority_errors_def parse_status_def)
  show ?thesis
    using user_isolation [OF demo_pk demo_theirs other i,
        of 5000 demo "Some (JObj [(''status'', JStr ''completed'')])"] n j v
    by simp
qed


section \<open>Partial update\<close>

lemma merge_task_keys:
  "(merge_task u due now t)\<lparr>t_id := t_id t, t_user_id := t_user_id t, t_created_at := t_created_at t\<rparr>
     = merge_task u due now t"
  by (cases t) (simp add: merge_task_def)

lemma updateTask_owned:
  assumes pk: "distinct (map t_id (tasks db))"
    and t: "t \<in> set (tasks db)"
    and own: "t_user_id t = userId user"
    and i: "t_id t \<noteq> []"
    and v: "validateUpdateTask X b = Inr u"
    and d: "merge_due_date X (upd_due_date u) (t_due_date t) = Inr due"
  shows "updateTask X now user (Some (t_id t)) (Some b) db =
           (ok_task (Some (merge_task u due now t)) (Some ''Task updated successfully''),
            db\<lparr>tasks := map (\<lambda>row. if row = t then merge_task u due now t else row) (tasks db)\<rparr>)"
proof -
  let ?set = "\<lambda>row. (merge_task u due now t)
       \<lparr>t_id := t_id row, t_user_id := t_user_id row, t_created_at := t_created_at row\<rparr>"
  have "map (\<lambda>row. if row = t then ?set row else row) (tasks db)
      = map (\<lambda>row. if row = t then merge_task u due now t else row) (tasks db)"
    by (rule map_cong [OF refl]) (simp add: merge_task_keys)
  moreover have "filter (where_id_and_user (t_id t) (userId user)) (tasks db) = [t]"
    using filter_owned [OF pk t] own by simp
  ultimately show ?thesis
    using i v d
    by (simp add: updateTask_def given_Some first_row_def Let_def merge_task_keys
        update_owned [OF pk t, unfolded own])
qed

lemma validate_null_description:
  "validateUpdateTask X (JObj [(''description'', JNull)]) =
     Inr \<lparr>upd_title = None, upd_description = None, upd_status = None,
          upd_priority = None, upd_due_date = None\<rparr>"
  by (simp add: validateUpdateTask_def update_errors_def hasAnyField_def status_errors_def
      priority_errors_def)

text \<open>
  Claim C10. The body \<^verbatim>\<open>{"description": null}\<close> counts as having a field and passes
  validation, with a DTO whose description is \<^verbatim>\<open>undefined\<close>; on a task the requester owns
  the answer is 200 and the stored row changes in \<open>t_updated_at\<close> only, so the description
  is the one stored before.
\<close>

theorem null_description_kept:
  assumes pk: "distinct (map t_id (tasks db))"
    and t: "t \<in> set (tasks db)"
    and own: "t_user_id t = userId user"
    and i: "t_id t \<noteq> []"
  shows "hasAnyField (JObj [(''description'', JNull)])
    \<and> validateUpdateTask X (JObj [(''description'', JNull)]) =
        Inr \<lparr>upd_title = None, upd_description = None, upd_status = None,
             upd_priority = None, upd_due_date = None\<rparr>
    \<and> updateTask X now user (Some (t_id t)) (Some (JObj [(''description'', JNull)])) db =
        (\<lparr>status = 200, success = True, data = Some (TaskData (Some (t\<lparr>t_updated_at := now\<rparr>))),
          error = None, message = Some ''Task updated successfully''\<rparr>,
         db\<lparr>tasks := map (\<lambda>row. if row = t then t\<lparr>t_updated_at := now\<rparr> else row) (tasks db)\<rparr>)
    \<and> t_description (t\<lparr>t_updated_at := now\<rparr>) = t_description t"
proof -
  let ?u = "\<lparr>upd_title = None, upd_description = None, upd_status = None,
             upd_priority = None, upd_due_date = None\<rparr>"
  have d: "merge_due_date X (upd_due_date ?u) (t_due_date t) = Inr (t_due_date t)"
    by (simp add: merge_due_date_def)
  have m: "merge_task ?u (t_due_date t) now t = t\<lparr>t_updated_at := now\<rparr>"
    by (cases t) (simp add: merge_task_def)
  show ?thesis
    using updateTask_owned [OF pk t own i validate_null_description d, of now]
    by (simp add: m ok_task_def validate_null_description hasAnyField_def)
qed

theorem null_description_kept_witness:
  "updateTask demo 5000 alice (Some ''u1-'') (Some (JObj [(''description'', JNull)]))
     (demo_db (Suc 0) (Suc 0)) =
     (\<lparr>status = 200, success = True,
       data = Some (TaskData (Some ((demo_task ''u1'' 0)\<lparr>t_updated_at := 5000\<rparr>))),
       error = None, message = Some ''Task updated successfully''\<rparr>,
      (demo_db (Suc 0) (Suc 0))
        \<lparr>tasks := map (\<lambda>row. if row = demo_task ''u1'' 0
                              then (demo_task ''u1'' 0)\<lparr>t_updated_at := 5000\<rparr> else row)
                    (tasks (demo_db (Suc 0) (Suc 0)))\<rparr>)"
proof -
  have own: "t_user_id (demo_task ''u1'' 0) = userId alice"
    by (simp add: demo_task_def alice_def)
  have i: "t_id (demo_task ''u1'' 0) \<noteq> []"
    by (simp add: demo_task_def)
  have n: "t_id (demo_task ''u1'' 0) = ''u1-''"
    by (simp add: demo_task_def)
  show ?thesis
    using null_description_kept [OF demo_pk demo_mine own i, of demo 5000, unfolded n]
    by blast
qed

text \<open>
  Claim C4, at the request \<^verbatim>\<open>PATCH /tasks/u1-t\<close> with body \<^verbatim>\<open>{"description": null}\<close>:
  the description is present in the request, yet the stored description "two litres" is
  not replaced.
\<close>

theorem null_description_not_cleared:
  "t_description (demo_task ''u1'' (Suc 0)) = Some ''two litres''
   \<and> tasks (demo_db (Suc (Suc 0)) 0) = [demo_task ''u1'' 0, demo_task ''u1'' (Suc 0)]
   \<and> updateTask demo 7000 alice (Some ''u1-t'') (Some (JObj [(''description'', JNull)]))
       (demo_db (Suc (Suc 0)) 0) =
       (\<lparr>status = 200, success = True,
         data = Some (TaskData (Some ((demo_task ''u1'' (Suc 0))
                  \<lparr>t_description := Some ''two litres'', t_updated_at := 7000\<rparr>))),
         error = None, message = Some ''Task updated successfully''\<rparr>,
        (demo_db (Suc (Suc 0)) 0)\<lparr>tasks := [demo_task ''u1'' 0,
                                 (demo_task ''u1'' (Suc 0))
                  \<lparr>t_description := Some ''two litres'', t_updated_at := 7000\<rparr>]\<rparr>)"
  by (simp add: demo_db_def demo_task_def alice_def updateTask_def given_def
      validate_null_description merge_due_date_def merge_task_def where_id_and_user_def
      first_row_def ok_task_def Let_def)


lemma title_ok: "title_update_errors v = [] \<Longrightarrow> (dto_title v = None) = (v = None)"
  by (cases v rule: title_update_errors.cases) (auto split: if_splits)

lemma description_ok:
  "description_update_errors v = [] \<Longrightarrow> (dto_description v = None) = (v = None \<or> v = Some JNull)"
  by (cases v rule: description_update_errors.cases) auto

lemma due_date_ok: "due_date_update_errors X v = [] \<Longrightarrow> (dto_due_date v = None) = (v = None)"
  by (cases "(X, v)" rule: due_date_update_errors.cases) (auto split: if_splits)

lemma dto_presence:
  assumes "validateUpdateTask X b = Inr u"
  shows "(upd_title u = None) = (get_prop b ''title'' = None)
    \<and> (upd_status u = None) = (get_prop b ''status'' = None)
    \<and> (upd_priority u = None) = (get_prop b ''priority'' = None)
    \<and> (upd_due_date u = None) = (get_prop b ''due_date'' = None)
    \<and> (upd_description u = None) =
        (get_prop b ''description'' = None \<or> get_prop b ''description'' = Some JNull)"
proof -
  from assms have e: "update_errors X b = []"
    and u: "u = \<lparr>upd_title = dto_title (get_prop b ''title''),
                upd_description = dto_description (get_prop b ''description''),
                upd_status = (case get_prop b ''status'' of None \<Rightarrow> None | Some v \<Rightarrow> parse_status v),
                upd_priority = (case get_prop b ''priority'' of None \<Rightarrow> None | Some v \<Rightarrow> parse_priority v),
                upd_due_date = dto_due_date (get_prop b ''due_date'')\<rparr>"
    by (auto simp: validateUpdateTask_def split: if_splits)
  from e have "title_update_errors (get_prop b ''title'') = []"
    and "description_update_errors (get_prop b ''description'') = []"
    and "status_errors (get_prop b ''status'') = []"
    and "priority_errors (get_prop b ''priority'') = []"
    and "due_date_update_errors X (get_prop b ''due_date'') = []"
    by (simp_all add: update_errors_def)
  then show ?thesis
    unfolding u
    by (auto simp: title_ok description_ok due_date_ok status_errors_def priority_errors_def
        split: option.splits if_splits)
qed

lemma update_without_fields:
  assumes "is_object b" and "\<not> hasAnyField b" and "i \<noteq> []"
  shows "updateTask X now user (Some i) (Some b) db =
           (failure 400 ''At least one field must be provided'', db)"
  using assms
  by (simp add: updateTask_def given_Some validateUpdateTask_def update_errors_def
      first_error_def verr_def)

lemma update_status_only:
  assumes pk: "distinct (map t_id (tasks db))"
    and t: "t \<in> set (tasks db)"
    and own: "t_user_id t = userId user"
    and i: "t_id t \<noteq> []"
  shows "updateTask X now user (Some (t_id t)) (Some (JObj [(''status'', JStr ''completed'')])) db =
           (ok_task (Some (t\<lparr>t_status := Completed, t_updated_at := now\<rparr>))
              (Some ''Task updated successfully''),
            db\<lparr>tasks := map (\<lambda>row. if row = t then t\<lparr>t_status := Completed, t_updated_at := now\<rparr>
                                    else row) (tasks db)\<rparr>)"
proof -
  let ?u = "\<lparr>upd_title = None, upd_description = None, upd_status = Some Completed,
             upd_priority = None, upd_due_date = None\<rparr>"
  have v: "validateUpdateTask X (JObj [(''status'', JStr ''completed'')]) = Inr ?u"
    by (simp add: validateUpdateTask_def update_errors_def hasAnyField_def status_errors_def
        priority_errors_def parse_status_def)
  have d: "merge_due_date X (upd_due_date ?u) (t_due_date t) = Inr (t_due_date t)"
    by (simp add: merge_due_date_def)
  have m: "merge_task ?u (t_due_date t) now t = t\<lparr>t_status := Completed, t_updated_at := now\<rparr>"
    by (cases t) (simp add: merge_task_def)
  show ?thesis
    using updateTask_owned [OF pk t own i v d, of now] by (simp add: m)
qed

section \<open>Credentials\<close>

lemma of_char_lt: "(of_char c :: nat) < 256"
  by (cases c) simp

lemma lowerChar_space [simp]: "isWhiteSpace (lowerChar c) = isWhiteSpace c"
  using of_char_lt [of c]
  by (auto simp: lowerChar_def isWhiteSpace_def Let_def)

lemma lowerChar_eq_iff:
  assumes "(of_char k :: nat) < 65 \<or> (90 < (of_char k :: nat) \<and> (of_char k :: nat) < 97)"
  shows "(lowerChar c = k) = (c = k)"
proof -
  have "of_char (lowerChar c) = (of_char k :: nat) \<longleftrightarrow> of_char c = (of_char k :: nat)"
    using of_char_lt [of c] assms
    by (auto simp: lowerChar_def Let_def)
  then show ?thesis
    by (metis of_char_eq_iff)
qed

lemma lowerChar_at [simp]: "(lowerChar c = CHR ''@'') = (c = CHR ''@'')"
  by (rule lowerChar_eq_iff) simp

lemma lowerChar_dot [simp]: "(lowerChar c = CHR ''.'') = (c = CHR ''.'')"
  by (rule lowerChar_eq_iff) simp

lemma lowerChar_idem [simp]: "lowerChar (lowerChar c) = lowerChar c"
  using of_char_lt [of c]
  by (auto simp: lowerChar_def Let_def)

lemma plain_lowerChar [simp]: "plain (lowerChar c) = plain c"
  by (simp add: plain_def)

lemma toLowerCase_idem [simp]: "toLowerCase (toLowerCase s) = toLowerCase s"
  by (simp add: toLowerCase_def)

lemma toLowerCase_Nil [simp]: "(toLowerCase s = []) = (s = [])"
  by (simp add: toLowerCase_def)


lemma valid_email_nonempty: "isValidEmail e \<Longrightarrow> e \<noteq> []"
  by (auto simp: isValidEmail_def Let_def)

lemma at_not_space: "\<not> isWhiteSpace CHR ''@''"
  by (simp add: isWhiteSpace_def)

lemma in_set_hd_tl: "c \<in> set xs \<Longrightarrow> c = hd xs \<or> c \<in> set (tl xs)"
  by (cases xs) auto

lemma valid_email_no_space:
  assumes "isValidEmail e"
  shows "\<forall>c \<in> set e. \<not> isWhiteSpace c"
proof
  fix c assume c: "c \<in> set e"
  let ?l = "takeWhile plain e" and ?r = "dropWhile plain e"
  from assms have r: "?r \<noteq> []" and h: "hd ?r = CHR ''@''" and d: "list_all plain (tl ?r)"
    by (simp_all add: isValidEmail_def Let_def)
  from c have "c \<in> set (?l @ ?r)"
    by simp
  then have "c \<in> set ?l \<or> c \<in> set ?r"
    by (simp only: set_append Un_iff)
  moreover have "c \<in> set ?r \<Longrightarrow> c = hd ?r \<or> c \<in> set (tl ?r)"
    by (rule in_set_hd_tl)
  ultimately consider "c \<in> set ?l" | "c = CHR ''@''" | "c \<in> set (tl ?r)"
    using h by auto
  then show "\<not> isWhiteSpace c"
  proof cases
    case 1
    then show ?thesis by (auto dest: set_takeWhileD simp: plain_def)
  next
    case 2
    then show ?thesis by (simp add: at_not_space)
  next
    case 3
    with d have "plain c" unfolding list_all_iff by blast
    then show ?thesis by (simp add: plain_def)
  qed
qed

lemma dropWhile_none: "\<forall>c \<in> set xs. \<not> P c \<Longrightarrow> dropWhile P xs = xs"
  by (cases xs) auto

lemma trim_no_space:
  assumes "\<forall>c \<in> set s. \<not> isWhiteSpace c"
  shows "trim s = s"
proof -
  have "dropWhile isWhiteSpace s = s"
    using assms by (rule dropWhile_none)
  moreover have "dropWhile isWhiteSpace (rev s) = rev s"
    by (rule dropWhile_none) (use assms in simp)
  ultimately show ?thesis
    by (simp add: trim_def)
qed

lemma trim_valid_email: "isValidEmail e \<Longrightarrow> trim e = e"
  by (rule trim_no_space) (rule valid_email_no_space)

lemma email_shape_lower:
  "(map lowerChar l \<noteq> [] \<and> map lowerChar r \<noteq> [] \<and> hd (map lowerChar r) = CHR ''@''
      \<and> list_all plain (tl (map lowerChar r))
      \<and> list_ex (\<lambda>i. tl (map lowerChar r) ! i = CHR ''.'') [1 ..< length (tl (map lowerChar r)) - 1])
   = (l \<noteq> [] \<and> r \<noteq> [] \<and> hd r = CHR ''@'' \<and> list_all plain (tl r)
      \<and> list_ex (\<lambda>i. tl r ! i = CHR ''.'') [1 ..< length (tl r) - 1])"
proof (cases r)
  case Nil
  then show ?thesis by simp
next
  case (Cons a d)
  have ex: "list_ex (\<lambda>i. map lowerChar d ! i = CHR ''.'') [Suc 0 ..< length d - Suc 0]
          = list_ex (\<lambda>i. d ! i = CHR ''.'') [Suc 0 ..< length d - Suc 0]"
  proof (rule list_ex_cong [OF refl])
    fix i assume "i \<in> set [Suc 0 ..< length d - Suc 0]"
    then have "i < length d" by auto
    then show "(map lowerChar d ! i = CHR ''.'') = (d ! i = CHR ''.'')" by simp
  qed
  have al: "list_all plain (map lowerChar d) = list_all plain d"
    by (simp add: list_all_iff)
  have tl': "tl (map lowerChar (a # d)) = map lowerChar d" and hd': "hd (map lowerChar (a # d)) = lowerChar a"
    and ne: "map lowerChar (a # d) \<noteq> []" "a # d \<noteq> []" and ln: "length (map lowerChar d) = length d"
    and nl: "(map lowerChar l \<noteq> []) = (l \<noteq> [])"
    by simp_all
  show ?thesis
    unfolding Cons tl' hd' ln list.sel One_nat_def ex al lowerChar_at nl
    using ne by blast
qed

lemma isValidEmail_lower [simp]: "isValidEmail (toLowerCase e) = isValidEmail e"
proof -
  have tw: "takeWhile plain (map lowerChar e) = map lowerChar (takeWhile plain e)"
    by (simp add: takeWhile_map comp_def)
  have dw: "dropWhile plain (map lowerChar e) = map lowerChar (dropWhile plain e)"
    by (simp add: dropWhile_map comp_def)
  show ?thesis
    unfolding isValidEmail_def toLowerCase_def tw dw Let_def
    by (rule email_shape_lower)
qed

lemma validateLogin_ok:
  assumes o: "is_object b"
    and e: "get_prop b ''email'' = Some (JStr e)" and v: "isValidEmail e"
    and p: "get_prop b ''password'' = Some (JStr p)" and n: "p \<noteq> []"
  shows "validateLogin b = Inr \<lparr>login_email = trim (toLowerCase e), login_password = p\<rparr>"
proof -
  have "email_errors (get_prop b ''email'') = []"
    unfolding e using v valid_email_nonempty [OF v] by simp
  moreover have "login_password_errors (get_prop b ''password'') = []"
    unfolding p using n by simp
  moreover have "str_prop b ''email'' = e" and "str_prop b ''password'' = p"
    unfolding str_prop_def e p by simp_all
  ultimately show ?thesis
    using o by (simp add: validateLogin_def)
qed


lemma login_body_props [simp]:
  "is_object (login_body e p)"
  "get_prop (login_body e p) ''email'' = Some (JStr e)"
  "get_prop (login_body e p) ''password'' = Some (JStr p)"
  by (simp_all add: login_body_def)

lemma register_body_props [simp]:
  "is_object (register_body e p n)"
  "get_prop (register_body e p n) ''email'' = Some (JStr e)"
  "get_prop (register_body e p n) ''password'' = Some (JStr p)"
  "get_prop (register_body e p n) ''name'' = Some (JStr n)"
  by (simp_all add: register_body_def)

lemma str_prop_login [simp]:
  "str_prop (login_body e p) ''email'' = e" "str_prop (login_body e p) ''password'' = p"
  by (simp_all add: str_prop_def)

lemma str_prop_register [simp]:
  "str_prop (register_body e p n) ''email'' = e" "str_prop (register_body e p n) ''password'' = p"
  "str_prop (register_body e p n) ''name'' = n"
  by (simp_all add: str_prop_def)

lemma validateLogin_lower:
  "validateLogin (login_body (toLowerCase e) p) = validateLogin (login_body e p)"
  by (simp add: validateLogin_def)

lemma validateRegister_lower:
  "validateRegister (register_body (toLowerCase e) p n) = validateRegister (register_body e p n)"
  by (simp add: validateRegister_def)

lemma login_lower:
  "login_POST X now (Some (login_body (toLowerCase e) p)) db = login_POST X now (Some (login_body e p)) db"
  by (simp add: login_POST_def validateLogin_lower)

lemma register_lower:
  "register_POST X now (Some (register_body (toLowerCase e) p n)) db
     = register_POST X now (Some (register_body e p n)) db"
  by (simp add: register_POST_def validateRegister_lower)

lemma space_invalid:
  assumes "\<exists>c \<in> set e. isWhiteSpace c"
  shows "\<not> isValidEmail e"
  using assms valid_email_no_space by blast

lemma login_padded:
  assumes "e \<noteq> []" and "\<exists>c \<in> set e. isWhiteSpace c"
  shows "login_POST X now (Some (login_body e p)) db = (failure 400 ''Invalid email format'', db)"
  using assms(1) space_invalid [OF assms(2)]
  by (simp add: login_POST_def validateLogin_def first_error_def verr_def)

lemma register_padded:
  assumes "e \<noteq> []" and "\<exists>c \<in> set e. isWhiteSpace c"
  shows "register_POST X now (Some (register_body e p n)) db =
           (failure 400 ''Invalid email format'', db)"
  using assms(1) space_invalid [OF assms(2)]
  by (simp add: register_POST_def validateRegister_def first_error_def verr_def)

lemma validateRegister_ok:
  assumes "isValidEmail e" and "length p \<ge> 8" and "length (trim n) \<ge> 2"
  shows "validateRegister (register_body e p n) =
           Inr \<lparr>reg_email = toLowerCase e, reg_password = p, reg_name = trim n\<rparr>"
proof -
  have "n \<noteq> []" using assms(3) by (auto simp: trim_def)
  moreover have "p \<noteq> []" using assms(2) by auto
  moreover have "trim (toLowerCase e) = toLowerCase e"
    by (rule trim_valid_email) (simp add: assms(1))
  ultimately show ?thesis
    using assms valid_email_nonempty [OF assms(1)]
    by (simp add: validateRegister_def isValidPassword_def)
qed

lemma register_duplicate:
  assumes "isValidEmail e" and "length p \<ge> 8" and "length (trim n) \<ge> 2"
    and "u \<in> set (users db)" and "u_email u = toLowerCase e"
  shows "register_POST X now (Some (register_body e p n)) db =
           (failure 409 ''Email already registered'', db)"
proof -
  have "filter (\<lambda>x. u_email x = toLowerCase e) (users db) \<noteq> []"
    using assms(4,5) by (auto simp: filter_empty_conv)
  then show ?thesis
    by (simp add: register_POST_def validateRegister_ok [OF assms(1-3)] Let_def)
qed

lemma validateLogin_body:
  assumes "isValidEmail e" and "p \<noteq> []"
  shows "validateLogin (login_body e p) = Inr \<lparr>login_email = toLowerCase e, login_password = p\<rparr>"
proof -
  have "trim (toLowerCase e) = toLowerCase e"
    by (rule trim_valid_email) (simp add: assms(1))
  then show ?thesis
    using validateLogin_ok [of "login_body e p" e p] assms by simp
qed

lemma login_success:
  assumes "isValidEmail e" and "p \<noteq> []"
    and "filter (\<lambda>x. u_email x = toLowerCase e) (users db) = u # us"
    and "verifyPassword X p (u_password_hash u) = Some True"
    and "generateRefreshToken X now \<lparr>userId = u_id u, email = u_email u\<rparr>
           \<notin> rt_token ` set (refresh_tokens db)"
  shows "status (fst (login_POST X now (Some (login_body e p)) db)) = 200"
  using assms(3-5)
  by (simp add: login_POST_def validateLogin_body [OF assms(1,2)] insert_refresh_token_def
      generateTokens_def Let_def)


lemma valid_alice: "isValidEmail ''alice@example.com''"
  by code_simp

lemma valid_bob: "isValidEmail ''bob@example.com''"
  by code_simp

lemma valid_Alice: "isValidEmail ''Alice@Example.COM''"
  by code_simp

lemma lower_Alice: "toLowerCase ''Alice@Example.COM'' = ''alice@example.com''"
  by code_simp

lemma padded_invalid: "\<not> isValidEmail '' alice@example.com''"
  by code_simp

text \<open>
  Claim C7, as amended. Among the login requests that pass validation, one whose email no
  user has and one whose email is registered but whose password \<^verbatim>\<open>bcrypt.compare\<close> finds
  wrong receive the same answer, 401 "Invalid email or password", and neither changes the
  store. A request that fails validation is answered with its 400 before any user is
  looked up, whatever the store holds.
\<close>

theorem login_failures_identical:
  assumes v1: "validateLogin b1 = Inr d1" and v2: "validateLogin b2 = Inr d2"
    and unknown: "filter (\<lambda>x. u_email x = login_email d1) (users db) = []"
    and known: "filter (\<lambda>x. u_email x = login_email d2) (users db) = u # us"
    and wrong: "verifyPassword X (login_password d2) (u_password_hash u) = Some False"
  shows "login_POST X now1 (Some b1) db = (failure 401 ''Invalid email or password'', db)
    \<and> login_POST X now2 (Some b2) db = (failure 401 ''Invalid email or password'', db)
    \<and> (\<forall>b errors now db'. validateLogin b = Inl errors \<longrightarrow>
          login_POST X now (Some b) db' = (failure 400 (first_error errors), db'))"
  using v1 v2 unknown known wrong
  by (simp add: login_POST_def)

text \<open>
  Claim C7 as stated fails on requests that do not pass validation: the email
  \<open>nobody\<close>, which no user has, and the registered \<open>alice@example.com\<close> with the empty,
  wrong password are both answered 400, not 401, each with its own message.
\<close>

theorem login_rejected_by_validation:
  "filter (\<lambda>x. u_email x = ''nobody'') (users demo_auth_db) = []
   \<and> login_POST demo 9000 (Some (login_body ''nobody'' ''password123'')) demo_auth_db =
       (failure 400 ''Invalid email format'', demo_auth_db)
   \<and> alice_row \<in> set (users demo_auth_db)
   \<and> u_email alice_row = ''alice@example.com''
   \<and> verifyPassword demo [] (u_password_hash alice_row) = Some False
   \<and> login_POST demo 9000 (Some (login_body ''alice@example.com'' [])) demo_auth_db =
       (failure 400 ''Password is required'', demo_auth_db)"
proof -
  have "\<not> isValidEmail ''nobody''"
    by code_simp
  then have "login_POST demo 9000 (Some (login_body ''nobody'' ''password123'')) demo_auth_db =
      (failure 400 ''Invalid email format'', demo_auth_db)"
    by (simp add: login_POST_def validateLogin_def first_error_def verr_def)
  moreover have "login_POST demo 9000 (Some (login_body ''alice@example.com'' [])) demo_auth_db =
      (failure 400 ''Password is required'', demo_auth_db)"
    using valid_alice by (simp add: login_POST_def validateLogin_def first_error_def verr_def)
  ultimately show ?thesis
    by (simp add: demo_auth_db_def alice_row_def verifyPassword_def demo_def)
qed

theorem login_failures_identical_witness:
  "login_POST demo 9000 (Some (login_body ''bob@example.com'' ''password123'')) demo_auth_db =
     (failure 401 ''Invalid email or password'', demo_auth_db)
   \<and> login_POST demo 9500 (Some (login_body ''alice@example.com'' ''wrongpass'')) demo_auth_db =
     (failure 401 ''Invalid email or password'', demo_auth_db)
   \<and> login_POST demo 9700 (Some (login_body ''alice@example.com'' [])) demo_auth_db =
     (failure 400 ''Password is required'', demo_auth_db)"
proof -
  have lb: "toLowerCase ''bob@example.com'' = ''bob@example.com''"
    and la: "toLowerCase ''alice@example.com'' = ''alice@example.com''"
    by code_simp+
  have v1: "validateLogin (login_body ''bob@example.com'' ''password123'') =
      Inr \<lparr>login_email = ''bob@example.com'', login_password = ''password123''\<rparr>"
    using validateLogin_body [OF valid_bob, of "''password123''"] by (simp add: lb)
  have v2: "validateLogin (login_body ''alice@example.com'' ''wrongpass'') =
      Inr \<lparr>login_email = ''alice@example.com'', login_password = ''wrongpass''\<rparr>"
    using validateLogin_body [OF valid_alice, of "''wrongpass''"] by (simp add: la)
  have v3: "validateLogin (login_body ''alice@example.com'' []) =
      Inl [verr ''password'' ''Password is required'']"
    using valid_alice by (simp add: validateLogin_def)
  have unknown: "filter (\<lambda>x. u_email x =
      login_email \<lparr>login_email = ''bob@example.com'', login_password = ''password123''\<rparr>)
      (users demo_auth_db) = []"
    by (simp add: demo_auth_db_def alice_row_def)
  have known: "filter (\<lambda>x. u_email x =
      login_email \<lparr>login_email = ''alice@example.com'', login_password = ''wrongpass''\<rparr>)
      (users demo_auth_db) = alice_row # []"
    by (simp add: demo_auth_db_def alice_row_def)
  have wrong: "verifyPassword demo
      (login_password \<lparr>login_email = ''alice@example.com'', login_password = ''wrongpass''\<rparr>)
      (u_password_hash alice_row) = Some False"
    by (simp add: verifyPassword_def demo_def alice_row_def)
  have m: "first_error [verr ''password'' ''Password is required''] = ''Password is required''"
    by (simp add: first_error_def verr_def)
  note T = login_failures_identical [OF v1 v2 unknown known wrong, of 9000 9500]
  note third = T [THEN conjunct2, THEN conjunct2, rule_format, OF v3, of 9700 demo_auth_db]
  show ?thesis
    using T [THEN conjunct1] T [THEN conjunct2, THEN conjunct1] third [unfolded m]
    by (intro conjI)
qed


lemma replicate_9: "replicate 9 x = [x, x, x, x, x, x, x, x, x]"
  by (simp add: eval_nat_numeral)

lemma replicate_5: "replicate 5 x = [x, x, x, x, x]"
  by (simp add: eval_nat_numeral)

lemma demo_token_9000:
  "generateRefreshToken demo 9000 \<lparr>userId = ''u1'', email = ''alice@example.com''\<rparr>
     = ''r|u1|alice@example.com|iiiiiiiii''"
  by (simp add: generateRefreshToken_def demo_def demo_sign_def replicate_9)

text \<open>
  Claim C9, as amended. Login and registration with an email \<open>e\<close> behave exactly as with
  \<open>e\<close> in lower case. Trimming never takes part: an email that passes validation has no
  white space, and one with white space is rejected with 400 "Invalid email format"
  before any store operation. In particular, when \<open>e\<close> differs only in letter case from
  the email of a registered user, a registration with \<open>e\<close> (and a valid password and name)
  is rejected with 409, and a login with \<open>e\<close> and the right password succeeds provided the
  refresh token it signs is not already stored.
\<close>

theorem email_case_normalised:
  "login_POST X now (Some (login_body e p)) db
      = login_POST X now (Some (login_body (toLowerCase e) p)) db
   \<and> register_POST X now (Some (register_body e p n)) db
      = register_POST X now (Some (register_body (toLowerCase e) p n)) db
   \<and> (isValidEmail e \<longrightarrow> trim e = e)
   \<and> (e \<noteq> [] \<and> (\<exists>c \<in> set e. isWhiteSpace c) \<longrightarrow>
        login_POST X now (Some (login_body e p)) db = (failure 400 ''Invalid email format'', db)
        \<and> register_POST X now (Some (register_body e p n)) db =
            (failure 400 ''Invalid email format'', db))
   \<and> (isValidEmail e \<and> toLowerCase e = toLowerCase e0 \<and> u \<in> set (users db)
        \<and> u_email u = toLowerCase e0 \<and> length p \<ge> 8 \<and> length (trim n) \<ge> 2 \<longrightarrow>
        register_POST X now (Some (register_body e p n)) db =
          (failure 409 ''Email already registered'', db))
   \<and> (isValidEmail e \<and> toLowerCase e = toLowerCase e0 \<and> p \<noteq> []
        \<and> filter (\<lambda>x. u_email x = toLowerCase e0) (users db) = u # us
        \<and> verifyPassword X p (u_password_hash u) = Some True
        \<and> generateRefreshToken X now \<lparr>userId = u_id u, email = u_email u\<rparr>
             \<notin> rt_token ` set (refresh_tokens db) \<longrightarrow>
        status (fst (login_POST X now (Some (login_body e p)) db)) = 200)"
proof -
  have dup: "register_POST X now (Some (register_body e p n)) db =
      (failure 409 ''Email already registered'', db)"
    if "isValidEmail e" "toLowerCase e = toLowerCase e0" "u \<in> set (users db)"
      "u_email u = toLowerCase e0" "length p \<ge> 8" "length (trim n) \<ge> 2"
    using that register_duplicate [of e p n u db X now] by simp
  have ok: "status (fst (login_POST X now (Some (login_body e p)) db)) = 200"
    if "isValidEmail e" "toLowerCase e = toLowerCase e0" "p \<noteq> []"
      "filter (\<lambda>x. u_email x = toLowerCase e0) (users db) = u # us"
      "verifyPassword X p (u_password_hash u) = Some True"
      "generateRefreshToken X now \<lparr>userId = u_id u, email = u_email u\<rparr>
         \<notin> rt_token ` set (refresh_tokens db)"
    using that login_success [of e p db u us X now] by simp
  show ?thesis
    using dup ok login_padded [of e X now p db] register_padded [of e X now p n db]
      trim_valid_email [of e]
    by (simp only: login_lower register_lower) blast
qed

text \<open>
  Claim C9 as stated fails for surrounding white space: with a leading space the login of
  the registered \<open>alice@example.com\<close> is answered 400, while the lowercased and trimmed
  email logs in.
\<close>

theorem padded_email_rejected:
  "toLowerCase (trim '' alice@example.com'') = u_email alice_row
   \<and> login_POST demo 9000 (Some (login_body '' alice@example.com'' ''password123'')) demo_auth_db =
       (failure 400 ''Invalid email format'', demo_auth_db)
   \<and> status (fst (login_POST demo 9000
         (Some (login_body (trim (toLowerCase '' alice@example.com'')) ''password123''))
         demo_auth_db)) = 200"
proof -
  have t: "trim (toLowerCase '' alice@example.com'') = ''alice@example.com''"
    and t': "toLowerCase (trim '' alice@example.com'') = ''alice@example.com''"
    and la: "toLowerCase ''alice@example.com'' = ''alice@example.com''"
    by code_simp+
  have sp: "\<exists>c \<in> set '' alice@example.com''. isWhiteSpace c"
    by (simp add: isWhiteSpace_def)
  have known: "filter (\<lambda>x. u_email x = toLowerCase ''alice@example.com'') (users demo_auth_db)
      = alice_row # []"
    unfolding la by (simp add: demo_auth_db_def alice_row_def)
  have pw: "verifyPassword demo ''password123'' (u_password_hash alice_row) = Some True"
    by (simp add: verifyPassword_def demo_def alice_row_def)
  have fresh: "generateRefreshToken demo 9000 \<lparr>userId = u_id alice_row, email = u_email alice_row\<rparr>
      \<notin> rt_token ` set (refresh_tokens demo_auth_db)"
    by (simp add: demo_token_9000 demo_auth_db_def alice_row_def alice_token_def)
  have "status (fst (login_POST demo 9000
      (Some (login_body ''alice@example.com'' ''password123'')) demo_auth_db)) = 200"
    by (rule login_success [OF valid_alice _ known pw fresh]) simp
  moreover have "login_POST demo 9000
      (Some (login_body '' alice@example.com'' ''password123'')) demo_auth_db =
      (failure 400 ''Invalid email format'', demo_auth_db)"
    by (rule login_padded [OF _ sp]) simp
  ultimately show ?thesis
    unfolding t t' by (simp add: alice_row_def)
qed

theorem email_case_normalised_witness:
  "login_POST demo 9000 (Some (login_body ''Alice@Example.COM'' ''password123'')) demo_auth_db
      = login_POST demo 9000 (Some (login_body ''alice@example.com'' ''password123'')) demo_auth_db
   \<and> status (fst (login_POST demo 9000
         (Some (login_body ''Alice@Example.COM'' ''password123'')) demo_auth_db)) = 200
   \<and> register_POST demo 9000
         (Some (register_body ''Alice@Example.COM'' ''password123'' ''Alice'')) demo_auth_db =
       (failure 409 ''Email already registered'', demo_auth_db)
   \<and> login_POST demo 9000 (Some (login_body '' alice@example.com'' ''password123'')) demo_auth_db =
       (failure 400 ''Invalid email format'', demo_auth_db)"
proof -
  have la: "toLowerCase ''alice@example.com'' = ''alice@example.com''"
    by code_simp
  have known: "filter (\<lambda>x. u_email x = toLowerCase ''alice@example.com'') (users demo_auth_db)
      = alice_row # []"
    unfolding la by (simp add: demo_auth_db_def alice_row_def)
  have mem: "alice_row \<in> set (users demo_auth_db)"
    and em: "u_email alice_row = toLowerCase ''alice@example.com''"
    unfolding la by (simp_all add: demo_auth_db_def alice_row_def)
  have pw: "verifyPassword demo ''password123'' (u_password_hash alice_row) = Some True"
    by (simp add: verifyPassword_def demo_def alice_row_def)
  have fresh: "generateRefreshToken demo 9000 \<lparr>userId = u_id alice_row, email = u_email alice_row\<rparr>
      \<notin> rt_token ` set (refresh_tokens demo_auth_db)"
    by (simp add: demo_token_9000 demo_auth_db_def alice_row_def alice_token_def)
  have same: "toLowerCase ''Alice@Example.COM'' = toLowerCase ''alice@example.com''"
    unfolding la by (rule lower_Alice)
  have len: "length ''password123'' \<ge> 8" "length (trim ''Alice'') \<ge> 2" "''password123'' \<noteq> []"
    by code_simp+
  have sp: "\<exists>c \<in> set '' alice@example.com''. isWhiteSpace c"
    by (simp add: isWhiteSpace_def)
  note T = email_case_normalised [of demo 9000 "''Alice@Example.COM''" "''password123''"
      demo_auth_db "''Alice''" "''alice@example.com''" alice_row "[]"]
  note P = email_case_normalised [of demo 9000 "'' alice@example.com''" "''password123''"
      demo_auth_db "''Alice''" "''alice@example.com''" alice_row "[]"]
  from T valid_Alice same mem em len known pw fresh
  have "login_POST demo 9000 (Some (login_body ''Alice@Example.COM'' ''password123'')) demo_auth_db
      = login_POST demo 9000
          (Some (login_body (toLowerCase ''Alice@Example.COM'') ''password123'')) demo_auth_db"
    and "status (fst (login_POST demo 9000
         (Some (login_body ''Alice@Example.COM'' ''password123'')) demo_auth_db)) = 200"
    and "register_POST demo 9000
         (Some (register_body ''Alice@Example.COM'' ''password123'' ''Alice'')) demo_auth_db =
       (failure 409 ''Email already registered'', demo_auth_db)"
    by blast+
  moreover from P sp
  have "login_POST demo 9000 (Some (login_body '' alice@example.com'' ''password123'')) demo_auth_db =
       (failure 400 ''Invalid email format'', demo_auth_db)"
    by blast
  ultimately show ?thesis
    unfolding lower_Alice by blast
qed


section \<open>Refresh-token rotation\<close>

lemma same_token_same_row:
  "distinct (map rt_token rows) \<Longrightarrow> r \<in> set rows \<Longrightarrow> x \<in> set rows \<Longrightarrow>
   rt_token x = rt_token r \<Longrightarrow> x = r"
  by (meson distinct_map inj_onD)

lemma filter_one:
  assumes "distinct rows" and "r \<in> set rows"
  shows "filter (\<lambda>x. x = r) rows = [r]"
  using assms
proof (induction rows)
  case Nil
  then show ?case by simp
next
  case (Cons a rows)
  show ?case
  proof (cases "a = r")
    case True
    then have "r \<notin> set rows" using Cons.prems(1) by simp
    then have "filter (\<lambda>x. x = r) rows = []"
      by (auto simp: filter_empty_conv)
    with True show ?thesis by simp
  next
    case False
    then show ?thesis using Cons by simp
  qed
qed

lemma filter_token:
  assumes d: "distinct (map rt_token rows)" and r: "r \<in> set rows" and p: "P r"
  shows "filter (\<lambda>x. rt_token x = rt_token r \<and> P x) rows = [r]"
proof -
  have "filter (\<lambda>x. rt_token x = rt_token r \<and> P x) rows = filter (\<lambda>x. x = r) rows"
    by (rule filter_cong [OF refl]) (use same_token_same_row [OF d r] p in blast)
  moreover have "distinct rows"
    using d by (simp add: distinct_map)
  ultimately show ?thesis
    using filter_one [OF _ r] by simp
qed

lemma token_gone:
  assumes d: "distinct (map rt_token rows)" and r: "r \<in> set rows"
  shows "rt_token r \<notin> rt_token ` set (filter (\<lambda>x. rt_id x \<noteq> rt_id r) rows)"
proof
  assume "rt_token r \<in> rt_token ` set (filter (\<lambda>x. rt_id x \<noteq> rt_id r) rows)"
  then obtain x where x: "x \<in> set rows" "rt_id x \<noteq> rt_id r" "rt_token x = rt_token r"
    by auto
  from same_token_same_row [OF d r x(1) x(3)] x(2) show False by simp
qed

lemma refresh_body_prop [simp]: "get_prop (refresh_body t) ''refreshToken'' = Some (JStr t)"
  by (simp add: refresh_body_def)

lemma refresh_success:
  assumes ne: "t \<noteq> []"
    and v: "verifyRefreshToken X now t = Some pl"
    and stored: "filter (\<lambda>x. rt_token x = t \<and> rt_expires_at x > now) (refresh_tokens db) = r # rs"
    and usr: "filter (\<lambda>x. u_id x = rt_user_id r) (users db) = u # us"
    and fresh: "generateRefreshToken X now \<lparr>userId = u_id u, email = u_email u\<rparr>
                  \<notin> rt_token ` set (filter (\<lambda>x. rt_id x \<noteq> rt_id r) (refresh_tokens db))"
  shows "refresh_POST X now (Some (refresh_body t)) db =
           (\<lparr>status = 200, success = True,
             data = Some (TokensData (generateTokens X now \<lparr>userId = u_id u, email = u_email u\<rparr>)),
             error = None, message = Some ''Tokens refreshed successfully''\<rparr>,
            db\<lparr>refresh_tokens := filter (\<lambda>x. rt_id x \<noteq> rt_id r) (refresh_tokens db) @
                   [\<lparr>rt_id = uuid X (next_id db), rt_user_id = u_id u,
                     rt_token = generateRefreshToken X now \<lparr>userId = u_id u, email = u_email u\<rparr>,
                     rt_expires_at = getRefreshTokenExpiry now, rt_created_at = now\<rparr>],
                 next_id := Suc (next_id db)\<rparr>)"
  using ne v stored usr fresh
  by (simp add: refresh_POST_def refresh_body_def insert_refresh_token_def generateTokens_def
      Let_def)


lemma refresh_absent:
  assumes "t \<noteq> []" and "t \<notin> rt_token ` set (refresh_tokens db)"
  shows "status (fst (refresh_POST X now (Some (refresh_body t)) db)) = 401
    \<and> data (fst (refresh_POST X now (Some (refresh_body t)) db)) = None
    \<and> snd (refresh_POST X now (Some (refresh_body t)) db) = db"
proof -
  have "filter (\<lambda>x. rt_token x = t \<and> rt_expires_at x > now) (refresh_tokens db) = []"
    using assms(2) by (auto simp: filter_empty_conv)
  then show ?thesis
    using assms(1)
    by (simp add: refresh_POST_def refresh_body_def failure_def split: option.splits)
qed

lemma generateRefreshToken_second:
  "T1 div 1000 = T0 div 1000 \<Longrightarrow> generateRefreshToken X T1 pl = generateRefreshToken X T0 pl"
  by (simp add: generateRefreshToken_def)

lemma refresh_single_use_when_reissued_differs:
  assumes uniq: "distinct (map rt_token (refresh_tokens db))"
    and r: "r \<in> set (refresh_tokens db)" and rt: "rt_token r = t" and exp1: "T1 < rt_expires_at r"
    and u: "filter (\<lambda>x. u_id x = rt_user_id r) (users db) = u # us"
    and ne: "t \<noteq> []"
    and v1: "verifyRefreshToken X T1 t = Some pl"
    and differs: "generateRefreshToken X T1 \<lparr>userId = u_id u, email = u_email u\<rparr> \<noteq> t"
    and fresh: "generateRefreshToken X T1 \<lparr>userId = u_id u, email = u_email u\<rparr>
                  \<notin> rt_token ` set (refresh_tokens db)"
  shows "status (fst (refresh_POST X T1 (Some (refresh_body t)) db)) = 200
    \<and> status (fst (refresh_POST X T2 (Some (refresh_body t))
                      (snd (refresh_POST X T1 (Some (refresh_body t)) db)))) = 401
    \<and> data (fst (refresh_POST X T2 (Some (refresh_body t))
                      (snd (refresh_POST X T1 (Some (refresh_body t)) db)))) = None
    \<and> snd (refresh_POST X T2 (Some (refresh_body t))
              (snd (refresh_POST X T1 (Some (refresh_body t)) db)))
        = snd (refresh_POST X T1 (Some (refresh_body t)) db)"
proof -
  let ?new = "generateRefreshToken X T1 \<lparr>userId = u_id u, email = u_email u\<rparr>"
  let ?rows = "filter (\<lambda>x. rt_id x \<noteq> rt_id r) (refresh_tokens db)"
  have stored: "filter (\<lambda>x. rt_token x = t \<and> rt_expires_at x > T1) (refresh_tokens db) = r # []"
    using filter_token [OF uniq r, of "\<lambda>x. rt_expires_at x > T1"] exp1 rt by simp
  have fresh': "?new \<notin> rt_token ` set ?rows"
    using fresh by auto
  note first = refresh_success [OF ne v1 stored u fresh']
  have gone: "t \<notin> rt_token ` set ?rows"
    using token_gone [OF uniq r] rt by simp
  have absent: "t \<notin> rt_token ` set (refresh_tokens (snd (refresh_POST X T1 (Some (refresh_body t)) db)))"
    unfolding first using gone differs by auto
  show ?thesis
    using refresh_absent [OF ne absent, of X T2] by (simp add: first)
qed

text \<open>
  Claim C1, for a refresh within the second in which the token was issued. The token is a
  function of the user id, the email and the issue second, so the rotation signs the very
  token \<open>t\<close> it has just deleted and stores it again: the first refresh answers 200 with
  \<open>t\<close> as the new refresh token, and presenting \<open>t\<close> once more, at any instant \<open>T2\<close>
  within its new seven days at which it still verifies, answers 200 again instead of 401.
\<close>

theorem refresh_token_replay_within_second:
  assumes uniq: "distinct (map rt_token (refresh_tokens db))"
    and r: "r \<in> set (refresh_tokens db)" and rt: "rt_token r = t"
    and ru: "rt_user_id r = u_id u" and exp1: "T1 < rt_expires_at r"
    and u: "filter (\<lambda>x. u_id x = u_id u) (users db) = u # us"
    and issued: "t = generateRefreshToken X T0 \<lparr>userId = u_id u, email = u_email u\<rparr>"
    and same: "T1 div 1000 = T0 div 1000"
    and ne: "t \<noteq> []"
    and v1: "jwtVerify X T1 REFRESH_TOKEN_SECRET t = Some c1"
    and v2: "jwtVerify X T2 REFRESH_TOKEN_SECRET t = Some c2"
    and later: "T2 < T1 + 604800000"
    and fresh2: "generateRefreshToken X T2 \<lparr>userId = u_id u, email = u_email u\<rparr>
                   \<notin> rt_token ` set (refresh_tokens db) - {t}"
  shows "status (fst (refresh_POST X T1 (Some (refresh_body t)) db)) = 200
    \<and> data (fst (refresh_POST X T1 (Some (refresh_body t)) db)) =
        Some (TokensData \<lparr>accessToken = generateAccessToken X T1 \<lparr>userId = u_id u, email = u_email u\<rparr>,
                           refreshToken = t\<rparr>)
    \<and> status (fst (refresh_POST X T2 (Some (refresh_body t))
                      (snd (refresh_POST X T1 (Some (refresh_body t)) db)))) = 200
    \<and> (\<exists>tokens. data (fst (refresh_POST X T2 (Some (refresh_body t))
                      (snd (refresh_POST X T1 (Some (refresh_body t)) db)))) = Some (TokensData tokens))"
proof -
  let ?pl = "\<lparr>userId = u_id u, email = u_email u\<rparr>"
  let ?rows = "filter (\<lambda>x. rt_id x \<noteq> rt_id r) (refresh_tokens db)"
  let ?new = "\<lparr>rt_id = uuid X (next_id db), rt_user_id = u_id u, rt_token = t,
               rt_expires_at = getRefreshTokenExpiry T1, rt_created_at = T1\<rparr>"
  let ?db1 = "db\<lparr>refresh_tokens := ?rows @ [?new], next_id := Suc (next_id db)\<rparr>"
  have again: "generateRefreshToken X T1 ?pl = t"
    using generateRefreshToken_second [OF same] issued by simp
  have w1: "verifyRefreshToken X T1 t = Some \<lparr>userId = c_userId c1, email = c_email c1\<rparr>"
    and w2: "verifyRefreshToken X T2 t = Some \<lparr>userId = c_userId c2, email = c_email c2\<rparr>"
    by (simp_all add: verifyRefreshToken_def v1 v2)
  have stored: "filter (\<lambda>x. rt_token x = t \<and> rt_expires_at x > T1) (refresh_tokens db) = r # []"
    using filter_token [OF uniq r, of "\<lambda>x. rt_expires_at x > T1"] exp1 rt by simp
  have u': "filter (\<lambda>x. u_id x = rt_user_id r) (users db) = u # us"
    using u ru by simp
  have gone: "t \<notin> rt_token ` set ?rows"
    using token_gone [OF uniq r] rt by simp
  have fresh1: "generateRefreshToken X T1 ?pl \<notin> rt_token ` set ?rows"
    unfolding again by (rule gone)
  have first: "refresh_POST X T1 (Some (refresh_body t)) db =
      (\<lparr>status = 200, success = True,
        data = Some (TokensData \<lparr>accessToken = generateAccessToken X T1 ?pl, refreshToken = t\<rparr>),
        error = None, message = Some ''Tokens refreshed successfully''\<rparr>, ?db1)"
    using refresh_success [OF ne w1 stored u' fresh1] by (simp add: again generateTokens_def)
  have none: "filter (\<lambda>x. rt_token x = t \<and> rt_expires_at x > T2) ?rows = []"
    using gone by (auto simp: filter_empty_conv)
  have stored2: "filter (\<lambda>x. rt_token x = t \<and> rt_expires_at x > T2) (refresh_tokens ?db1)
      = ?new # []"
    using none later by (simp add: getRefreshTokenExpiry_def)
  have u2: "filter (\<lambda>x. u_id x = rt_user_id ?new) (users ?db1) = u # us"
    using u by simp
  have fresh2': "generateRefreshToken X T2 ?pl
      \<notin> rt_token ` set (filter (\<lambda>x. rt_id x \<noteq> rt_id ?new) (refresh_tokens ?db1))"
  proof
    assume "generateRefreshToken X T2 ?pl
      \<in> rt_token ` set (filter (\<lambda>x. rt_id x \<noteq> rt_id ?new) (refresh_tokens ?db1))"
    then obtain x where x: "x \<in> set ?rows" "rt_token x = generateRefreshToken X T2 ?pl"
      by auto
    from x(1) gone have "rt_token x \<noteq> t" by auto
    moreover from x(1) have "rt_token x \<in> rt_token ` set (refresh_tokens db)" by auto
    ultimately show False using fresh2 x(2) by auto
  qed
  have second: "status (fst (refresh_POST X T2 (Some (refresh_body t)) ?db1)) = 200
      \<and> (\<exists>tokens. data (fst (refresh_POST X T2 (Some (refresh_body t)) ?db1))
            = Some (TokensData tokens))"
    unfolding refresh_success [OF ne w2 stored2 u2 fresh2'] by simp
  show ?thesis
    unfolding first using second by simp
qed


lemma demo_token_5200:
  "generateRefreshToken demo 5200 \<lparr>userId = ''u1'', email = ''alice@example.com''\<rparr> = alice_token"
  by (simp add: generateRefreshToken_def demo_def demo_sign_def replicate_5 alice_token_def)

lemma demo_verify_parts:
  "demo_verify now REFRESH_TOKEN_SECRET alice_token =
     (if now div 1000 < 5 + 604800
      then Some \<lparr>c_userId = ''u1'', c_email = ''alice@example.com'', c_iat = 5, c_exp = 5 + 604800\<rparr>
      else None)"
  unfolding demo_verify_def alice_token_def Let_def by simp

lemma demo_verify_alice:
  "now div 1000 < 604805 \<Longrightarrow>
   jwtVerify demo now REFRESH_TOKEN_SECRET alice_token =
     Some \<lparr>c_userId = ''u1'', c_email = ''alice@example.com'', c_iat = 5, c_exp = 604805\<rparr>"
  by (simp add: demo_def demo_verify_parts)

theorem refresh_token_replay_within_second_witness:
  "data (fst (refresh_POST demo 5700 (Some (refresh_body alice_token)) demo_auth_db)) =
     Some (TokensData
       \<lparr>accessToken = generateAccessToken demo 5700 \<lparr>userId = ''u1'', email = ''alice@example.com''\<rparr>,
        refreshToken = alice_token\<rparr>)
   \<and> status (fst (refresh_POST demo 9000 (Some (refresh_body alice_token))
                   (snd (refresh_POST demo 5700 (Some (refresh_body alice_token)) demo_auth_db))))
       = 200"
proof -
  let ?r = "\<lparr>rt_id = ''##'', rt_user_id = ''u1'', rt_token = alice_token,
             rt_expires_at = 604805200, rt_created_at = 5200\<rparr>"
  have uniq: "distinct (map rt_token (refresh_tokens demo_auth_db))"
    and r: "?r \<in> set (refresh_tokens demo_auth_db)"
    by (simp_all add: demo_auth_db_def)
  have rt: "rt_token ?r = alice_token" and ru: "rt_user_id ?r = u_id alice_row"
    and exp1: "5700 < rt_expires_at ?r"
    by (simp_all add: alice_row_def)
  have u: "filter (\<lambda>x. u_id x = u_id alice_row) (users demo_auth_db) = alice_row # []"
    by (simp add: demo_auth_db_def)
  have issued: "alice_token = generateRefreshToken demo 5200
      \<lparr>userId = u_id alice_row, email = u_email alice_row\<rparr>"
    by (simp add: demo_token_5200 alice_row_def)
  have same: "(5700::nat) div 1000 = 5200 div 1000"
    by simp
  have ne: "alice_token \<noteq> []"
    by (simp add: alice_token_def)
  have v1: "jwtVerify demo 5700 REFRESH_TOKEN_SECRET alice_token =
      Some \<lparr>c_userId = ''u1'', c_email = ''alice@example.com'', c_iat = 5, c_exp = 604805\<rparr>"
    and v2: "jwtVerify demo 9000 REFRESH_TOKEN_SECRET alice_token =
      Some \<lparr>c_userId = ''u1'', c_email = ''alice@example.com'', c_iat = 5, c_exp = 604805\<rparr>"
    by (simp_all add: demo_verify_alice)
  have later: "(9000::nat) < 5700 + 604800000"
    by simp
  have fresh2: "generateRefreshToken demo 9000 \<lparr>userId = u_id alice_row, email = u_email alice_row\<rparr>
      \<notin> rt_token ` set (refresh_tokens demo_auth_db) - {alice_token}"
    by (simp add: demo_token_9000 alice_row_def demo_auth_db_def)
  show ?thesis
    using refresh_token_replay_within_second
      [OF uniq r rt ru exp1 u issued same ne v1 v2 later fresh2]
    by (simp add: alice_row_def)
qed

text \<open>
  \<open>verifyPassword\<close> hands on a rejection of \<^verbatim>\<open>bcrypt.compare\<close>; the login handler's
  \<^verbatim>\<open>catch\<close> turns it into 500.
\<close>

lemma login_when_compare_rejects:
  assumes "isValidEmail e" and "p \<noteq> []"
    and "filter (\<lambda>x. u_email x = toLowerCase e) (users db) = u # us"
    and "verifyPassword X p (u_password_hash u) = None"
  shows "login_POST X now (Some (login_body e p)) db = (internal_error, db)"
  using assms(3,4) by (simp add: login_POST_def validateLogin_body [OF assms(1,2)])

end
